theory Spec2Isabelle
  imports Complex_Main "HOL-Library.Multiset"
begin

section \<open>Route recommendation engine: the data model\<close>

text \<open>
  The embedding follows \<^verbatim>\<open>app/core/recommender.py\<close> (class \<^verbatim>\<open>RouteRecommender\<close>),
  \<^verbatim>\<open>app/core/advanced_recommender.py\<close> (class \<^verbatim>\<open>AdvancedRouteRecommender\<close>) and
  \<^verbatim>\<open>app/core/config.py\<close>. Python floats are modelled as \<open>real\<close> (exact arithmetic, no
  rounding, no NaN); every Python exception the modelled code can raise is a value of
  \<open>py_error\<close>, and a function that can raise returns \<open>py_error + 'a\<close>.
\<close>

datatype py_error = ValueError | ZeroDivisionError | KeyError | TypeError | PredictError

text \<open>
  A catalog entry is a dict loaded from \<^verbatim>\<open>cities.json\<close>: keys \<^verbatim>\<open>name\<close>, \<^verbatim>\<open>lat\<close>,
  \<^verbatim>\<open>lng\<close>, an optional \<^verbatim>\<open>population\<close> (read with \<^verbatim>\<open>.get("population", 0)\<close>) and the key
  \<^verbatim>\<open>detour_ratio\<close>, which is absent after loading and written by
  \<^verbatim>\<open>_find_intermediate_cities\<close>.
\<close>

record city =
  name :: string
  country :: string
  lat :: real
  lng :: real
  population :: "real option"
  detour_ratio :: "real option"

record attraction =
  attraction_name :: string
  attraction_city :: string
  category :: string
  rating :: real

datatype route_type = direct | with_stops

text \<open>
  A route is the dict built by \<^verbatim>\<open>recommend_routes\<close> and \<^verbatim>\<open>_create_route_with_stops\<close>.
  The key \<^verbatim>\<open>score\<close> is attached after the dict is built; before that the field holds 0
  and is never read.
\<close>

record route =
  rtype :: route_type
  distance :: real
  duration :: real
  cost :: real
  attractions :: "attraction list"
  route_population :: real
  segments :: "(string \<times> string) list"
  intermediate_city :: "string option"
  score :: real

record recommender =
  cities_data :: "city list"
  attractions_data :: "attraction list"

type_synonym preferences = "string \<rightharpoonup> real"

text \<open>\<^verbatim>\<open>settings.max_routes_per_request\<close>, default of \<^verbatim>\<open>Settings\<close> in config.py.\<close>

definition max_routes_per_request :: nat where
  "max_routes_per_request = 5"

section \<open>Helpers for Python semantics\<close>

text \<open>
  \<^verbatim>\<open>str.lower()\<close>, restricted to the ASCII letters: the only bytes it changes in an
  ASCII or UTF-8 encoded Persian name.
\<close>

definition lower_char :: "char \<Rightarrow> char" where
  "lower_char c =
     (let n = (of_char c :: nat) in if 65 \<le> n \<and> n \<le> 90 then char_of (n + 32) else c)"

definition lower :: "string \<Rightarrow> string" where
  "lower s = map lower_char s"

text \<open>Truthiness of a value that is \<^verbatim>\<open>None\<close> or a number: false for \<^verbatim>\<open>None\<close> and for 0.\<close>

definition truthy :: "real option \<Rightarrow> bool" where
  "truthy x = (case x of None \<Rightarrow> False | Some v \<Rightarrow> v \<noteq> 0)"

definition truthy_int :: "int option \<Rightarrow> bool" where
  "truthy_int x = (case x of None \<Rightarrow> False | Some v \<Rightarrow> v \<noteq> 0)"

text \<open>
  \<^verbatim>\<open>list.sort(key=..., reverse=True)\<close>: a stable sort in descending key order (elements
  with equal keys keep their original order). \<open>sort_key\<close> is a stable ascending insertion
  sort, so the descending sort is the ascending sort on the negated key.
\<close>

definition sort_desc :: "('a \<Rightarrow> real) \<Rightarrow> 'a list \<Rightarrow> 'a list" where
  "sort_desc k xs = sort_key (\<lambda>x. - k x) xs"

section \<open>The simple recommender (recommender.py)\<close>

definition radians :: "real \<Rightarrow> real" where
  "radians d = d * pi / 180"

text \<open>
  \<^verbatim>\<open>calculate_distance\<close>: \<^verbatim>\<open>math.sqrt\<close> raises ValueError on a negative argument and
  \<^verbatim>\<open>math.asin\<close> raises ValueError outside [-1, 1].
\<close>

definition calculate_distance :: "real \<Rightarrow> real \<Rightarrow> real \<Rightarrow> real \<Rightarrow> py_error + real" where
  "calculate_distance lat1 lng1 lat2 lng2 =
     (let lat1 = radians lat1; lng1 = radians lng1;
          lat2 = radians lat2; lng2 = radians lng2;
          dlat = lat2 - lat1;
          dlng = lng2 - lng1;
          a = (sin (dlat / 2))\<^sup>2 + cos lat1 * cos lat2 * (sin (dlng / 2))\<^sup>2
      in if a < 0 then Inl ValueError
         else if 1 < sqrt a then Inl ValueError
         else Inr (6371 * (2 * arcsin (sqrt a))))"

fun find_city_coordinates :: "city list \<Rightarrow> string \<Rightarrow> real option \<times> real option" where
  "find_city_coordinates [] city_name = (None, None)"
| "find_city_coordinates (c # cs) city_name =
     (if lower (name c) = lower city_name then (Some (lat c), Some (lng c))
      else find_city_coordinates cs city_name)"

text \<open>\<^verbatim>\<open>1.0 / (1.0 + x / n)\<close>, with the division by zero written out.\<close>

definition inverse_score :: "real \<Rightarrow> real \<Rightarrow> py_error + real" where
  "inverse_score x n = (if 1 + x / n = 0 then Inl ZeroDivisionError else Inr (1 / (1 + x / n)))"

text \<open>One \<^verbatim>\<open>if key in preferences: score += preferences[key] * sub_score\<close> block.\<close>

definition add_term :: "preferences \<Rightarrow> string \<Rightarrow> py_error + real \<Rightarrow> real \<Rightarrow> py_error + real" where
  "add_term prefs key sub sc =
     (case prefs key of
        None \<Rightarrow> Inr sc
      | Some w \<Rightarrow> (case sub of Inl e \<Rightarrow> Inl e | Inr s \<Rightarrow> Inr (sc + w * s)))"

definition get_route_score :: "route \<Rightarrow> preferences \<Rightarrow> py_error + real" where
  "get_route_score r prefs =
     (case add_term prefs ''fastest'' (inverse_score (distance r) 100) 0 of
        Inl e \<Rightarrow> Inl e
      | Inr s1 \<Rightarrow>
     (case add_term prefs ''cheapest'' (inverse_score (cost r) 1000) s1 of
        Inl e \<Rightarrow> Inl e
      | Inr s2 \<Rightarrow>
     (case add_term prefs ''scenic'' (Inr (min (real (length (attractions r)) / 10) 1)) s2 of
        Inl e \<Rightarrow> Inl e
      | Inr s3 \<Rightarrow>
        add_term prefs ''quiet'' (inverse_score (route_population r) 1000000) s3)))"

text \<open>
  The body of the loop of \<^verbatim>\<open>_find_intermediate_cities\<close> for one city: \<open>Some\<close> of the detour
  ratio when the city is accepted, \<open>None\<close> when it is not. The division is reached only
  inside the first \<^verbatim>\<open>if\<close>.
\<close>

definition detour_of :: "real \<Rightarrow> real \<Rightarrow> real \<Rightarrow> real \<Rightarrow> city \<Rightarrow> py_error + real option" where
  "detour_of origin_lat origin_lng dest_lat dest_lng c =
     (case calculate_distance origin_lat origin_lng (lat c) (lng c) of
        Inl e \<Rightarrow> Inl e
      | Inr dist_from_origin \<Rightarrow>
     (case calculate_distance (lat c) (lng c) dest_lat dest_lng of
        Inl e \<Rightarrow> Inl e
      | Inr dist_to_dest \<Rightarrow>
     (case calculate_distance origin_lat origin_lng dest_lat dest_lng of
        Inl e \<Rightarrow> Inl e
      | Inr direct_dist \<Rightarrow>
        if dist_from_origin < direct_dist \<and> dist_to_dest < direct_dist then
          (if direct_dist = 0 then Inl ZeroDivisionError
           else (let ratio = (dist_from_origin + dist_to_dest) / direct_dist
                 in if ratio < 1.5 then Inr (Some ratio) else Inr None))
        else Inr None)))"

text \<open>
  The loop over \<^verbatim>\<open>self.cities_data\<close>. An accepted city dict is mutated in place
  (\<^verbatim>\<open>city["detour_ratio"] = detour_ratio\<close>) and the same object is appended to
  \<^verbatim>\<open>intermediate_cities\<close>: the function returns the catalog after the loop and the list of
  accepted entries. When a distance computation raises, the exception is the result; the
  entries mutated before it are not tracked.
\<close>

fun intermediate_loop ::
    "real \<Rightarrow> real \<Rightarrow> real \<Rightarrow> real \<Rightarrow> city list \<Rightarrow> py_error + (city list \<times> city list)" where
  "intermediate_loop olat olng dlat dlng [] = Inr ([], [])"
| "intermediate_loop olat olng dlat dlng (c # cs) =
     (case detour_of olat olng dlat dlng c of
        Inl e \<Rightarrow> Inl e
      | Inr d \<Rightarrow>
     (case intermediate_loop olat olng dlat dlng cs of
        Inl e \<Rightarrow> Inl e
      | Inr (cs', acc) \<Rightarrow>
       (case d of
          None \<Rightarrow> Inr (c # cs', acc)
        | Some ratio \<Rightarrow> Inr (c\<lparr>detour_ratio := Some ratio\<rparr> # cs', c\<lparr>detour_ratio := Some ratio\<rparr> # acc))))"

text \<open>The sort key \<^verbatim>\<open>x["detour_ratio"]\<close>; a missing key is a KeyError in \<open>_find_intermediate_cities\<close>.\<close>

definition detour_key :: "city \<Rightarrow> real" where
  "detour_key c = (case detour_ratio c of Some r \<Rightarrow> r | None \<Rightarrow> 0)"

definition find_intermediate_cities ::
    "recommender \<Rightarrow> real \<Rightarrow> real \<Rightarrow> real \<Rightarrow> real \<Rightarrow> py_error + (city list \<times> recommender)" where
  "find_intermediate_cities self origin_lat origin_lng dest_lat dest_lng =
     (case intermediate_loop origin_lat origin_lng dest_lat dest_lng (cities_data self) of
        Inl e \<Rightarrow> Inl e
      | Inr (cs', acc) \<Rightarrow>
          if \<exists>c \<in> set acc. detour_ratio c = None then Inl KeyError
          else Inr (sort_key detour_key acc, self\<lparr>cities_data := cs'\<rparr>))"

text \<open>
  \<^verbatim>\<open>_create_route_with_stops\<close>. The dict it builds, before the score is attached, from the
  two distances it has computed:
\<close>

definition stops_route :: "recommender \<Rightarrow> string \<Rightarrow> string \<Rightarrow> city \<Rightarrow> real \<Rightarrow> real \<Rightarrow> route" where
  "stops_route self origin destination intermediate dist1 dist2 =
     (let atts = filter (\<lambda>a. attraction_city a = name intermediate) (attractions_data self);
          total_distance = dist1 + dist2;
          total_duration = total_distance / 80 + real (length atts) * 2;
          total_cost = total_distance * 0.5 + real (length atts) * 50
      in \<lparr> rtype = with_stops,
           distance = total_distance,
           duration = total_duration,
           cost = total_cost,
           attractions = atts,
           route_population = (case population intermediate of None \<Rightarrow> 0 | Some p \<Rightarrow> p),
           segments = [(origin, name intermediate), (name intermediate, destination)],
           intermediate_city = Some (name intermediate),
           score = 0 \<rparr>)"

text \<open>
  The whole method. The coordinates of origin and destination are looked up again;
  \<^verbatim>\<open>calculate_distance\<close> on a \<^verbatim>\<open>None\<close> coordinate is a TypeError.
\<close>

definition create_route_with_stops ::
    "recommender \<Rightarrow> string \<Rightarrow> string \<Rightarrow> city \<Rightarrow> preferences \<Rightarrow> py_error + route" where
  "create_route_with_stops self origin destination intermediate prefs =
     (case (find_city_coordinates (cities_data self) origin,
            find_city_coordinates (cities_data self) destination) of
        ((Some origin_lat, Some origin_lng), (Some dest_lat, Some dest_lng)) \<Rightarrow>
          (case calculate_distance origin_lat origin_lng (lat intermediate) (lng intermediate) of
             Inl e \<Rightarrow> Inl e
           | Inr dist1 \<Rightarrow>
          (case calculate_distance (lat intermediate) (lng intermediate) dest_lat dest_lng of
             Inl e \<Rightarrow> Inl e
           | Inr dist2 \<Rightarrow>
          (case get_route_score (stops_route self origin destination intermediate dist1 dist2) prefs of
             Inl e \<Rightarrow> Inl e
           | Inr s \<Rightarrow>
               Inr ((stops_route self origin destination intermediate dist1 dist2)\<lparr>score := s\<rparr>))))
      | _ \<Rightarrow> Inl TypeError)"

text \<open>
  \<^verbatim>\<open>for city in intermediate_cities[:3]\<close>: the slice is taken by the caller; every created
  route is a non-empty dict, so \<^verbatim>\<open>if route:\<close> always appends it.
\<close>

fun create_routes ::
    "recommender \<Rightarrow> string \<Rightarrow> string \<Rightarrow> preferences \<Rightarrow> city list \<Rightarrow> py_error + route list" where
  "create_routes self origin destination prefs [] = Inr []"
| "create_routes self origin destination prefs (c # cs) =
     (case create_route_with_stops self origin destination c prefs of
        Inl e \<Rightarrow> Inl e
      | Inr r \<Rightarrow>
     (case create_routes self origin destination prefs cs of
        Inl e \<Rightarrow> Inl e
      | Inr rs \<Rightarrow> Inr (r # rs)))"

text \<open>Lines 132 to 157 of \<^verbatim>\<open>recommend_routes\<close>: the candidate list before ranking.\<close>

definition direct_route :: "string \<Rightarrow> string \<Rightarrow> real \<Rightarrow> route" where
  "direct_route origin destination direct_distance =
     \<lparr> rtype = direct,
       distance = direct_distance,
       duration = direct_distance / 80,
       cost = direct_distance * 0.5,
       attractions = [],
       route_population = 0,
       segments = [(origin, destination)],
       intermediate_city = None,
       score = 0 \<rparr>"

definition candidate_routes ::
    "recommender \<Rightarrow> string \<Rightarrow> string \<Rightarrow> preferences \<Rightarrow> real \<Rightarrow> real \<Rightarrow> real \<Rightarrow> real
      \<Rightarrow> py_error + (route list \<times> recommender)" where
  "candidate_routes self origin destination prefs origin_lat origin_lng dest_lat dest_lng =
     (case calculate_distance origin_lat origin_lng dest_lat dest_lng of
        Inl e \<Rightarrow> Inl e
      | Inr direct_distance \<Rightarrow>
     (case get_route_score (direct_route origin destination direct_distance) prefs of
        Inl e \<Rightarrow> Inl e
      | Inr s \<Rightarrow>
     (case find_intermediate_cities self origin_lat origin_lng dest_lat dest_lng of
        Inl e \<Rightarrow> Inl e
      | Inr (intermediate_cities, self') \<Rightarrow>
     (case create_routes self' origin destination prefs (take 3 intermediate_cities) of
        Inl e \<Rightarrow> Inl e
      | Inr rs \<Rightarrow>
          Inr ((direct_route origin destination direct_distance)\<lparr>score := s\<rparr> # rs, self')))))"

text \<open>Lines 159 to 169 of \<^verbatim>\<open>recommend_routes\<close>: sort, filter, truncate.\<close>

definition rank_routes :: "route list \<Rightarrow> real option \<Rightarrow> int option \<Rightarrow> route list" where
  "rank_routes routes budget duration_days =
     (let routes1 = sort_desc score routes;
          routes2 = (if truthy budget
                     then filter (\<lambda>r. cost r \<le> (case budget of Some b \<Rightarrow> b | None \<Rightarrow> 0)) routes1
                     else routes1);
          routes3 = (if truthy_int duration_days
                     then filter (\<lambda>r. duration r \<le>
                            real_of_int ((case duration_days of Some d \<Rightarrow> d | None \<Rightarrow> 0) * 24)) routes2
                     else routes2)
      in take max_routes_per_request routes3)"

text \<open>
  \<^verbatim>\<open>recommend_routes\<close>. \<^verbatim>\<open>not all([origin_lat, origin_lng, dest_lat, dest_lng])\<close> holds
  when one of the four values is \<^verbatim>\<open>None\<close> or 0. The result pairs the returned list with
  the recommender after the call, whose catalog entries may have been mutated.
\<close>

definition recommend_routes ::
    "recommender \<Rightarrow> string \<Rightarrow> string \<Rightarrow> preferences \<Rightarrow> real option \<Rightarrow> int option
      \<Rightarrow> py_error + (route list \<times> recommender)" where
  "recommend_routes self origin destination prefs budget duration_days =
     (case (find_city_coordinates (cities_data self) origin,
            find_city_coordinates (cities_data self) destination) of
        ((origin_lat, origin_lng), (dest_lat, dest_lng)) \<Rightarrow>
          if \<not> (truthy origin_lat \<and> truthy origin_lng \<and> truthy dest_lat \<and> truthy dest_lng)
          then Inr ([], self)
          else
            (case (origin_lat, origin_lng, dest_lat, dest_lng) of
               (Some olat, Some olng, Some dlat, Some dlng) \<Rightarrow>
                 (case candidate_routes self origin destination prefs olat olng dlat dlng of
                    Inl e \<Rightarrow> Inl e
                  | Inr (routes, self') \<Rightarrow> Inr (rank_routes routes budget duration_days, self'))
             | _ \<Rightarrow> Inr ([], self)))"

section \<open>The advanced recommender (advanced_recommender.py)\<close>

record user_preferences =
  budget_range :: string
  travel_style :: string
  accessibility_needs :: "string list"
  cultural_interests :: "string list"
  seasonal_preferences :: "string list"
  group_size :: int
  max_duration_days :: int
  preferred_transport :: "string list"

record route_constraints =
  origin_city_id :: int
  destination_city_id :: int
  max_budget :: "int option"
  max_duration_hours :: "real option"
  must_visit_cities :: "int list"
  avoid_cities :: "int list"
  seasonal_restrictions :: "string list"

record seasonal_factor_table =
  temperature_factor :: real
  tourism_factor :: real
  road_condition_factor :: real
  cost_factor :: real

record route_segment =
  seg_origin_city_id :: int
  seg_destination_city_id :: int
  distance_km :: real
  duration_hours :: real
  cost_toman :: int
  scenic_rating :: real
  cultural_significance :: real
  safety_rating :: real
  road_type :: string
  seasonal_factors :: "seasonal_factor_table"

text \<open>
  A row of the query of \<^verbatim>\<open>_get_route_segments\<close> (table \<^verbatim>\<open>route_segments\<close> joined with
  \<^verbatim>\<open>cities\<close>). The three flags are the truth values of \<^verbatim>\<open>row.get('unesco_heritage')\<close>,
  \<^verbatim>\<open>row.get('historical_period')\<close> and \<^verbatim>\<open>row.get('religious_significance')\<close>.
\<close>

record db_row =
  row_origin_city_id :: int
  row_destination_city_id :: int
  row_distance_km :: real
  row_duration_hours :: real
  row_toll_cost :: int
  row_fuel_cost :: int
  row_scenic_rating :: real
  row_safety_rating :: real
  row_road_type :: string
  row_unesco_heritage :: bool
  row_historical_period :: bool
  row_religious_significance :: bool

datatype adv_route_type = adv_direct | with_waypoints

record adv_route =
  adv_type :: adv_route_type
  adv_segments :: "route_segment list"
  total_distance :: real
  total_duration :: real
  total_cost :: int
  waypoints :: "int list"
  adv_score :: real

text \<open>
  The state of an \<^verbatim>\<open>AdvancedRouteRecommender\<close> that the modelled methods read:
  \<^item> \<open>db\<close>: the rows of \<^verbatim>\<open>route_segments\<close> that join with \<^verbatim>\<open>cities\<close>, or the exception
    that \<^verbatim>\<open>self.db.execute\<close> raises;
  \<^item> \<open>ml_model\<close>: \<^verbatim>\<open>None\<close>, or the trained scorer: \<^verbatim>\<open>scaler.transform\<close> followed by
    \<^verbatim>\<open>ml_model.predict\<close>, a black box that returns a number or raises;
  \<^item> \<open>current_month\<close>: \<^verbatim>\<open>datetime.datetime.now().month\<close>.
\<close>

record advanced_recommender =
  db :: "py_error + db_row list"
  ml_model :: "(real list \<Rightarrow> py_error + real) option"
  current_month :: nat

definition load_seasonal_data :: "string \<rightharpoonup> seasonal_factor_table" where
  "load_seasonal_data =
     [''spring'' \<mapsto> \<lparr> temperature_factor = 1.2, tourism_factor = 1.3,
                       road_condition_factor = 1.1, cost_factor = 1.1 \<rparr>,
      ''summer'' \<mapsto> \<lparr> temperature_factor = 0.8, tourism_factor = 0.9,
                       road_condition_factor = 1.0, cost_factor = 0.9 \<rparr>,
      ''fall'' \<mapsto> \<lparr> temperature_factor = 1.1, tourism_factor = 1.2,
                     road_condition_factor = 1.0, cost_factor = 1.0 \<rparr>,
      ''winter'' \<mapsto> \<lparr> temperature_factor = 0.7, tourism_factor = 0.8,
                       road_condition_factor = 0.8, cost_factor = 0.8 \<rparr>]"

definition load_cultural_weights :: "string \<rightharpoonup> real" where
  "load_cultural_weights =
     [''historical'' \<mapsto> 1.3, ''religious'' \<mapsto> 1.2, ''cultural'' \<mapsto> 1.1,
      ''natural'' \<mapsto> 1.0, ''modern'' \<mapsto> 0.9, ''unesco_heritage'' \<mapsto> 1.5]"

definition get_current_season :: "advanced_recommender \<Rightarrow> string" where
  "get_current_season self =
     (let month = current_month self
      in if month \<in> {3, 4, 5} then ''spring''
         else if month \<in> {6, 7, 8} then ''summer''
         else if month \<in> {9, 10, 11} then ''fall''
         else ''winter'')"

text \<open>\<^verbatim>\<open>self.cultural_weights[key]\<close>: a missing key raises KeyError.\<close>

definition cultural_weight :: "string \<Rightarrow> py_error + real" where
  "cultural_weight key = (case load_cultural_weights key of None \<Rightarrow> Inl KeyError | Some w \<Rightarrow> Inr w)"

definition add_weight :: "bool \<Rightarrow> string \<Rightarrow> real \<Rightarrow> py_error + real" where
  "add_weight flag key significance =
     (if flag then (case cultural_weight key of Inl e \<Rightarrow> Inl e | Inr w \<Rightarrow> Inr (significance + w))
      else Inr significance)"

definition calculate_cultural_significance :: "db_row \<Rightarrow> py_error + real" where
  "calculate_cultural_significance route_data =
     (case add_weight (row_unesco_heritage route_data) ''unesco_heritage'' 0 of
        Inl e \<Rightarrow> Inl e
      | Inr s1 \<Rightarrow>
     (case add_weight (row_historical_period route_data) ''historical'' s1 of
        Inl e \<Rightarrow> Inl e
      | Inr s2 \<Rightarrow>
     (case add_weight (row_religious_significance route_data) ''religious'' s2 of
        Inl e \<Rightarrow> Inl e
      | Inr s3 \<Rightarrow> Inr (min s3 5))))"

definition get_seasonal_factors :: "advanced_recommender \<Rightarrow> db_row \<Rightarrow> seasonal_factor_table" where
  "get_seasonal_factors self route_data =
     (case load_seasonal_data (get_current_season self) of
        Some f \<Rightarrow> f
      | None \<Rightarrow> \<lparr> temperature_factor = 1.0, tourism_factor = 1.0,
                   road_condition_factor = 1.0, cost_factor = 1.0 \<rparr>)"

text \<open>
  The WHERE clause of the query of \<^verbatim>\<open>_get_route_segments\<close>, with
  \<^verbatim>\<open>avoid_cities = constraints.avoid_cities or []\<close>.
\<close>

definition query_where :: "int \<Rightarrow> int \<Rightarrow> int list \<Rightarrow> db_row \<Rightarrow> bool" where
  "query_where origin_id dest_id avoid rs \<longleftrightarrow>
     (row_origin_city_id rs = origin_id \<or> row_destination_city_id rs = dest_id)
     \<and> row_origin_city_id rs \<notin> set avoid
     \<and> row_destination_city_id rs \<notin> set avoid"

definition db_execute :: "advanced_recommender \<Rightarrow> int \<Rightarrow> int \<Rightarrow> int list \<Rightarrow> py_error + db_row list" where
  "db_execute self origin_id dest_id avoid =
     (case db self of Inl e \<Rightarrow> Inl e | Inr rows \<Rightarrow> Inr (filter (query_where origin_id dest_id avoid) rows))"

definition make_segment :: "advanced_recommender \<Rightarrow> db_row \<Rightarrow> py_error + route_segment" where
  "make_segment self row =
     (case calculate_cultural_significance row of
        Inl e \<Rightarrow> Inl e
      | Inr cs \<Rightarrow>
          Inr \<lparr> seg_origin_city_id = row_origin_city_id row,
                seg_destination_city_id = row_destination_city_id row,
                distance_km = row_distance_km row,
                duration_hours = row_duration_hours row,
                cost_toman = row_toll_cost row + row_fuel_cost row,
                scenic_rating = row_scenic_rating row,
                cultural_significance = cs,
                safety_rating = row_safety_rating row,
                road_type = row_road_type row,
                seasonal_factors = get_seasonal_factors self row \<rparr>)"

fun make_segments :: "advanced_recommender \<Rightarrow> db_row list \<Rightarrow> py_error + route_segment list" where
  "make_segments self [] = Inr []"
| "make_segments self (row # rows) =
     (case make_segment self row of
        Inl e \<Rightarrow> Inl e
      | Inr seg \<Rightarrow>
     (case make_segments self rows of
        Inl e \<Rightarrow> Inl e
      | Inr segs \<Rightarrow> Inr (seg # segs)))"

text \<open>\<^verbatim>\<open>_get_route_segments\<close>: every exception is caught and the empty list returned.\<close>

definition get_route_segments :: "advanced_recommender \<Rightarrow> route_constraints \<Rightarrow> route_segment list" where
  "get_route_segments self constraints =
     (case db_execute self (origin_city_id constraints) (destination_city_id constraints)
             (avoid_cities constraints) of
        Inl e \<Rightarrow> []
      | Inr result \<Rightarrow> (case make_segments self result of Inl e \<Rightarrow> [] | Inr segs \<Rightarrow> segs))"

definition generate_route_combinations ::
    "route_segment list \<Rightarrow> route_constraints \<Rightarrow> adv_route list" where
  "generate_route_combinations segs constraints =
     map (\<lambda>segment.
            \<lparr> adv_type = adv_direct,
              adv_segments = [segment],
              total_distance = distance_km segment,
              total_duration = duration_hours segment,
              total_cost = cost_toman segment,
              waypoints = [],
              adv_score = 0 \<rparr>)
         (filter (\<lambda>segment. seg_origin_city_id segment = origin_city_id constraints
                            \<and> seg_destination_city_id segment = destination_city_id constraints) segs)
     @ concat (map (\<lambda>segment1.
         map (\<lambda>segment2.
                \<lparr> adv_type = with_waypoints,
                  adv_segments = [segment1, segment2],
                  total_distance = distance_km segment1 + distance_km segment2,
                  total_duration = duration_hours segment1 + duration_hours segment2,
                  total_cost = cost_toman segment1 + cost_toman segment2,
                  waypoints = [seg_destination_city_id segment1],
                  adv_score = 0 \<rparr>)
             (filter (\<lambda>segment2. seg_origin_city_id segment1 = origin_city_id constraints
                                 \<and> seg_destination_city_id segment1 = seg_origin_city_id segment2
                                 \<and> seg_destination_city_id segment2 = destination_city_id constraints) segs))
         segs)"

definition calculate_cost_score :: "int \<Rightarrow> string \<Rightarrow> real" where
  "calculate_cost_score c tier =
     (let budget_limits = [''low'' \<mapsto> 200000, ''medium'' \<mapsto> 500000,
                           ''high'' \<mapsto> 1000000, ''luxury'' \<mapsto> (2000000 :: real)];
          limit = (case budget_limits tier of Some l \<Rightarrow> l | None \<Rightarrow> 500000)
      in if real_of_int c \<le> limit * 0.5 then 5.0
         else if real_of_int c \<le> limit * 0.8 then 4.0
         else if real_of_int c \<le> limit then 3.0
         else if real_of_int c \<le> limit * 1.5 then 2.0
         else 1.0)"

definition calculate_cultural_score :: "adv_route \<Rightarrow> user_preferences \<Rightarrow> py_error + real" where
  "calculate_cultural_score r prefs =
     (let sc = sum_list (map (\<lambda>segment. cultural_significance segment
                                + (if cultural_interests prefs \<noteq> [] then 0.5 else 0))
                             (adv_segments r))
      in if length (adv_segments r) = 0 then Inl ZeroDivisionError
         else Inr (min (sc / real (length (adv_segments r))) 5))"

definition calculate_scenic_score :: "adv_route \<Rightarrow> py_error + real" where
  "calculate_scenic_score r =
     (let total_scenic = sum_list (map scenic_rating (adv_segments r))
      in if length (adv_segments r) = 0 then Inl ZeroDivisionError
         else Inr (min (total_scenic / real (length (adv_segments r))) 5))"

definition get_seasonal_adjustment :: "advanced_recommender \<Rightarrow> adv_route \<Rightarrow> real" where
  "get_seasonal_adjustment self r =
     (case load_seasonal_data (get_current_season self) of
        Some f \<Rightarrow> tourism_factor f
      | None \<Rightarrow> 1.0)"

definition apply_user_preferences :: "adv_route \<Rightarrow> user_preferences \<Rightarrow> real" where
  "apply_user_preferences r prefs =
     (let factor = 1.0;
          factor = (if travel_style prefs = ''budget''
                    then (if total_cost r > 300000 then factor * 0.8 else factor)
                    else if travel_style prefs = ''luxury''
                    then (if total_cost r < 500000 then factor * 0.9 else factor)
                    else factor);
          factor = (if group_size prefs > 4 then factor * 1.1 else factor)
      in factor)"

text \<open>
  \<^verbatim>\<open>_get_ml_score\<close>: the clipped prediction; 3.0 when there is no model or anything
  inside the \<^verbatim>\<open>try\<close> raises.
\<close>

definition get_ml_score :: "advanced_recommender \<Rightarrow> adv_route \<Rightarrow> user_preferences \<Rightarrow> real" where
  "get_ml_score self r prefs =
     (case ml_model self of
        None \<Rightarrow> 3.0
      | Some predict \<Rightarrow>
     (case calculate_scenic_score r of
        Inl e \<Rightarrow> 3.0
      | Inr scenic \<Rightarrow>
     (case calculate_cultural_score r prefs of
        Inl e \<Rightarrow> 3.0
      | Inr cultural \<Rightarrow>
     (case predict [total_distance r, total_duration r, real_of_int (total_cost r),
                    scenic, cultural, 3.0, 1.0, 1.0] of
        Inl e \<Rightarrow> 3.0
      | Inr prediction \<Rightarrow> max 0.0 (min 5.0 prediction)))))"

text \<open>
  Lines 308 to 337 of \<^verbatim>\<open>_calculate_route_score\<close>: the rule-based composite with the
  seasonal and the preference factor applied, before the learned score is blended in.
\<close>

definition rule_score :: "advanced_recommender \<Rightarrow> adv_route \<Rightarrow> user_preferences \<Rightarrow> py_error + real" where
  "rule_score self r prefs =
     (let distance_score = max 0 (5.0 - total_distance r / 100);
          duration_score = max 0 (5.0 - total_duration r / 2);
          cost_score = calculate_cost_score (total_cost r) (budget_range prefs)
      in case calculate_cultural_score r prefs of
           Inl e \<Rightarrow> Inl e
         | Inr cultural_score \<Rightarrow>
        (case calculate_scenic_score r of
           Inl e \<Rightarrow> Inl e
         | Inr scenic_score \<Rightarrow>
             Inr ((0.0 + distance_score * 0.2 + duration_score * 0.2 + cost_score * 0.25
                   + cultural_score * 0.2 + scenic_score * 0.15)
                  * get_seasonal_adjustment self r
                  * apply_user_preferences r prefs)))"

text \<open>\<^verbatim>\<open>_calculate_route_score\<close>: any exception is caught and 0.0 returned.\<close>

definition calculate_route_score :: "advanced_recommender \<Rightarrow> adv_route \<Rightarrow> user_preferences \<Rightarrow> real" where
  "calculate_route_score self r prefs =
     (case rule_score self r prefs of
        Inl e \<Rightarrow> 0.0
      | Inr base_score \<Rightarrow>
          (let base_score = (case ml_model self of
                               None \<Rightarrow> base_score
                             | Some predict \<Rightarrow> base_score * 0.7 + get_ml_score self r prefs * 0.3)
           in min base_score 5.0))"

text \<open>
  \<^verbatim>\<open>recommend_routes\<close> of the advanced recommender; \<open>num_recommendations\<close> is taken
  non-negative.
\<close>

definition adv_recommend_routes ::
    "advanced_recommender \<Rightarrow> user_preferences \<Rightarrow> route_constraints \<Rightarrow> nat \<Rightarrow> adv_route list" where
  "adv_recommend_routes self prefs constraints num_recommendations =
     (let route_segments = get_route_segments self constraints;
          route_combinations = generate_route_combinations route_segments constraints;
          scored_routes = map (\<lambda>r. r\<lparr>adv_score := calculate_route_score self r prefs\<rparr>)
                              route_combinations
      in take num_recommendations (sort_desc adv_score scored_routes))"

section \<open>Notions used to state the properties\<close>

text \<open>The value \<^verbatim>\<open>calculate_distance\<close> returns (0 stands in where it raises).\<close>

definition great_circle :: "real \<Rightarrow> real \<Rightarrow> real \<Rightarrow> real \<Rightarrow> real" where
  "great_circle lat1 lng1 lat2 lng2 =
     (case calculate_distance lat1 lng1 lat2 lng2 of Inr d \<Rightarrow> d | Inl e \<Rightarrow> 0)"

text \<open>Kilometres per degree of latitude along a meridian: \<open>6371 * pi / 180\<close>.\<close>

definition km_per_degree :: real where
  "km_per_degree = 6371 * pi / 180"

text \<open>
  The acceptance condition for an intermediate waypoint as the specification words it:
  both partial distances smaller than the direct distance \<open>D\<close> and a detour ratio below 1.5.
\<close>

definition detour_ratio_of :: "real \<Rightarrow> real \<Rightarrow> real \<Rightarrow> real \<Rightarrow> city \<Rightarrow> real" where
  "detour_ratio_of olat olng dlat dlng c =
     (great_circle olat olng (lat c) (lng c) + great_circle (lat c) (lng c) dlat dlng)
       / great_circle olat olng dlat dlng"

definition waypoint_accepted :: "real \<Rightarrow> real \<Rightarrow> real \<Rightarrow> real \<Rightarrow> city \<Rightarrow> bool" where
  "waypoint_accepted olat olng dlat dlng c \<longleftrightarrow>
     great_circle olat olng (lat c) (lng c) < great_circle olat olng dlat dlng
     \<and> great_circle (lat c) (lng c) dlat dlng < great_circle olat olng dlat dlng
     \<and> detour_ratio_of olat olng dlat dlng c < 1.5"

text \<open>
  What the loop of \<^verbatim>\<open>_find_intermediate_cities\<close> leaves of a catalog entry: an accepted
  entry carries its detour ratio, any other entry is as it was.
\<close>

definition mark_city :: "real \<Rightarrow> real \<Rightarrow> real \<Rightarrow> real \<Rightarrow> city \<Rightarrow> city" where
  "mark_city olat olng dlat dlng c =
     (if waypoint_accepted olat olng dlat dlng c
      then c\<lparr>detour_ratio := Some (detour_ratio_of olat olng dlat dlng c)\<rparr> else c)"

text \<open>
  The accepted waypoints in ascending order of detour ratio, and the recommender after
  the loop has marked them.
\<close>

definition accepted_waypoints :: "recommender \<Rightarrow> real \<Rightarrow> real \<Rightarrow> real \<Rightarrow> real \<Rightarrow> city list" where
  "accepted_waypoints self olat olng dlat dlng =
     sort_key detour_key
       (map (mark_city olat olng dlat dlng)
          (filter (waypoint_accepted olat olng dlat dlng) (cities_data self)))"

definition marked :: "recommender \<Rightarrow> real \<Rightarrow> real \<Rightarrow> real \<Rightarrow> real \<Rightarrow> recommender" where
  "marked self olat olng dlat dlng =
     self\<lparr>cities_data := map (mark_city olat olng dlat dlng) (cities_data self)\<rparr>"

text \<open>
  A catalog entry with a geographic latitude and, when a population is given, a
  non-negative one.
\<close>

definition valid_city :: "city \<Rightarrow> bool" where
  "valid_city c \<longleftrightarrow> \<bar>lat c\<bar> \<le> 90 \<and> (case population c of None \<Rightarrow> True | Some p \<Rightarrow> 0 \<le> p)"

definition valid_catalog :: "recommender \<Rightarrow> bool" where
  "valid_catalog self \<longleftrightarrow> list_all valid_city (cities_data self)"

text \<open>A catalog entry with its \<^verbatim>\<open>detour_ratio\<close> key removed.\<close>

definition without_detour_ratio :: "city \<Rightarrow> city" where
  "without_detour_ratio c = c\<lparr>detour_ratio := None\<rparr>"

text \<open>The weight a preference dict gives a criterion, 0 when the key is absent.\<close>

definition weight :: "preferences \<Rightarrow> string \<Rightarrow> real" where
  "weight prefs key = (case prefs key of None \<Rightarrow> 0 | Some w \<Rightarrow> w)"

definition total_weight :: "preferences \<Rightarrow> real" where
  "total_weight prefs =
     weight prefs ''fastest'' + weight prefs ''cheapest'' + weight prefs ''scenic'' + weight prefs ''quiet''"

text \<open>The value \<^verbatim>\<open>get_route_score\<close> returns when no division in it fails.\<close>

definition score_value :: "route \<Rightarrow> preferences \<Rightarrow> real" where
  "score_value r prefs =
     weight prefs ''fastest'' * (1 / (1 + distance r / 100))
     + weight prefs ''cheapest'' * (1 / (1 + cost r / 1000))
     + weight prefs ''scenic'' * min (real (length (attractions r)) / 10) 1
     + weight prefs ''quiet'' * (1 / (1 + route_population r / 1000000))"

text \<open>
  The hard filters of the ranker: a route passes when its cost is within the budget and its
  duration within \<open>duration_days * 24\<close> hours, where a constraint that is absent or 0
  constrains nothing.
\<close>

definition within_constraints :: "real option \<Rightarrow> int option \<Rightarrow> route \<Rightarrow> bool" where
  "within_constraints budget duration_days r \<longleftrightarrow>
     (case budget of None \<Rightarrow> True | Some b \<Rightarrow> b = 0 \<or> cost r \<le> b)
     \<and> (case duration_days of None \<Rightarrow> True | Some d \<Rightarrow> d = 0 \<or> duration r \<le> real_of_int (d * 24))"

definition descending :: "route list \<Rightarrow> bool" where
  "descending rs = sorted_wrt (\<lambda>r1 r2. score r2 \<le> score r1) rs"

section \<open>Example inputs\<close>

text \<open>Cities on the meridian of 50 degrees east, where distances are linear in latitude.\<close>

definition city_at :: "string \<Rightarrow> real \<Rightarrow> real \<Rightarrow> city" where
  "city_at n la lo =
     \<lparr> name = n, country = ''iran'', lat = la, lng = lo, population = None, detour_ratio = None \<rparr>"

definition catalog_of :: "city list \<Rightarrow> recommender" where
  "catalog_of cs = \<lparr> cities_data = cs, attractions_data = [] \<rparr>"

definition city_a :: city where "city_a = city_at ''a'' 10 50"
definition city_w :: city where "city_w = city_at ''w'' 15 50"
definition city_b :: city where "city_b = city_at ''b'' 20 50"
definition city_x :: city where "city_x = city_at ''x'' 22 50"

text \<open>A candidate with a given cost, duration in hours and score.\<close>

definition route_with :: "real \<Rightarrow> real \<Rightarrow> real \<Rightarrow> route" where
  "route_with c d s = (direct_route ''a'' ''b'' 0)\<lparr>cost := c, duration := d, score := s\<rparr>"

text \<open>\<^verbatim>\<open>settings.default_route_preferences\<close> of config.py.\<close>

definition default_route_preferences :: preferences where
  "default_route_preferences =
     [''fastest'' \<mapsto> 0.3, ''cheapest'' \<mapsto> 0.3, ''scenic'' \<mapsto> 0.2, ''quiet'' \<mapsto> 0.2]"

text \<open>
  A segment table for the advanced recommender: a direct segment from city 1 to city 2
  and segments through the cities 3 and 4.
\<close>

definition row_of :: "int \<Rightarrow> int \<Rightarrow> db_row" where
  "row_of a b =
     \<lparr> row_origin_city_id = a, row_destination_city_id = b,
       row_distance_km = 500, row_duration_hours = 10,
       row_toll_cost = 0, row_fuel_cost = 0,
       row_scenic_rating = 0, row_safety_rating = 4, row_road_type = ''highway'',
       row_unesco_heritage = False, row_historical_period = False,
       row_religious_significance = False \<rparr>"

definition segment_of :: "int \<Rightarrow> int \<Rightarrow> route_segment" where
  "segment_of a b =
     \<lparr> seg_origin_city_id = a, seg_destination_city_id = b,
       distance_km = 500, duration_hours = 10, cost_toman = 0,
       scenic_rating = 0, cultural_significance = 0, safety_rating = 4,
       road_type = ''highway'',
       seasonal_factors = \<lparr> temperature_factor = 0.7, tourism_factor = 0.8,
                            road_condition_factor = 0.8, cost_factor = 0.8 \<rparr> \<rparr>"

definition direct_candidate :: adv_route where
  "direct_candidate =
     \<lparr> adv_type = adv_direct, adv_segments = [segment_of 1 2],
       total_distance = 500, total_duration = 10, total_cost = 0,
       waypoints = [], adv_score = 0 \<rparr>"

definition waypoint_candidate :: "int \<Rightarrow> adv_route" where
  "waypoint_candidate w =
     \<lparr> adv_type = with_waypoints, adv_segments = [segment_of 1 w, segment_of w 2],
       total_distance = 1000, total_duration = 20, total_cost = 0,
       waypoints = [w], adv_score = 0 \<rparr>"

definition standard_traveller :: user_preferences where
  "standard_traveller =
     \<lparr> budget_range = ''medium'', travel_style = ''standard'', accessibility_needs = [],
       cultural_interests = [], seasonal_preferences = [], group_size = 2,
       max_duration_days = 3, preferred_transport = [] \<rparr>"

definition from_1_to_2 :: "int list \<Rightarrow> route_constraints" where
  "from_1_to_2 avoid =
     \<lparr> origin_city_id = 1, destination_city_id = 2, max_budget = None,
       max_duration_hours = None, must_visit_cities = [], avoid_cities = avoid,
       seasonal_restrictions = [] \<rparr>"

text \<open>A learned scorer that raises, and one that predicts 4 for every route.\<close>

definition failing_model :: "real list \<Rightarrow> py_error + real" where
  "failing_model features = Inl PredictError"

definition constant_model :: "real list \<Rightarrow> py_error + real" where
  "constant_model features = Inr 4"

definition winter_recommender ::
    "db_row list \<Rightarrow> (real list \<Rightarrow> py_error + real) option \<Rightarrow> advanced_recommender" where
  "winter_recommender rows model = \<lparr> db = Inr rows, ml_model = model, current_month = 1 \<rparr>"

text \<open>
  Cities on the great circle formed by the meridians of 50 degrees east and 130 degrees
  west. From (10, 50) to (20, -130) the short way leads over the north pole (150 degrees);
  the cities p, q, r and s lie on it, the city f lies on the long way round.
\<close>

definition city_o :: city where "city_o = city_at ''o'' 10 50"
definition city_d :: city where "city_d = city_at ''d'' 20 (- 130)"
definition city_f :: city where "city_f = city_at ''f'' (- 60) 50"
definition city_p :: city where "city_p = city_at ''p'' 50 50"
definition city_q :: city where "city_q = city_at ''q'' 80 50"
definition city_r :: city where "city_r = city_at ''r'' 60 (- 130)"
definition city_s :: city where "city_s = city_at ''s'' 30 50"

definition polar_catalog :: recommender where
  "polar_catalog = catalog_of [city_o, city_f, city_p, city_q, city_r, city_s, city_d]"

text \<open>A city on the equator.\<close>

definition city_e :: city where "city_e = city_at ''e'' 0 50"

section \<open>The great-circle distance\<close>

lemma sin_sq_le_1: "(sin (x::real))\<^sup>2 \<le> 1"
  using sin_cos_squared_add[of x] zero_le_power2[of "cos x"] by linarith

lemma hav_nonneg:
  assumes "\<bar>p1\<bar> \<le> pi / 2" "\<bar>p2\<bar> \<le> pi / 2"
  shows "0 \<le> (sin ((p2 - p1) / 2))\<^sup>2 + cos p1 * cos p2 * (sin (d / 2))\<^sup>2"
proof -
  have c1: "0 \<le> cos p1" using assms(1) by (intro cos_ge_zero) (auto simp: abs_le_iff)
  have c2: "0 \<le> cos p2" using assms(2) by (intro cos_ge_zero) (auto simp: abs_le_iff)
  have "0 \<le> cos p1 * cos p2 * (sin (d / 2))\<^sup>2" using c1 c2 by (intro mult_nonneg_nonneg) auto
  moreover have "0 \<le> (sin ((p2 - p1) / 2))\<^sup>2" by simp
  ultimately show ?thesis by linarith
qed

lemma hav_le_1:
  assumes "\<bar>p1\<bar> \<le> pi / 2" "\<bar>p2\<bar> \<le> pi / 2"
  shows "(sin ((p2 - p1) / 2))\<^sup>2 + cos p1 * cos p2 * (sin (d / 2))\<^sup>2 \<le> 1"
proof -
  have c1: "0 \<le> cos p1" using assms(1) by (intro cos_ge_zero) (auto simp: abs_le_iff)
  have c2: "0 \<le> cos p2" using assms(2) by (intro cos_ge_zero) (auto simp: abs_le_iff)
  have cc: "0 \<le> cos p1 * cos p2" using c1 c2 by simp
  have a: "cos p1 * cos p2 * (sin (d / 2))\<^sup>2 \<le> cos p1 * cos p2 * 1"
    by (rule mult_left_mono[OF sin_sq_le_1 cc])
  have b: "cos (2 * ((p2 - p1) / 2)) = 1 - 2 * (sin ((p2 - p1) / 2))\<^sup>2"
    by (rule cos_double_sin)
  have h: "2 * ((p2 - p1) / 2) = p2 - p1" by simp
  have b': "cos (p2 - p1) = 1 - 2 * (sin ((p2 - p1) / 2))\<^sup>2"
    using b unfolding h .
  have c: "cos (p2 - p1) = cos p2 * cos p1 + sin p2 * sin p1"
    by (rule cos_diff)
  have d: "cos (p2 + p1) = cos p2 * cos p1 - sin p2 * sin p1"
    by (rule cos_add)
  have e: "cos (p2 + p1) \<le> 1" by (rule cos_le_one)
  have f: "cos p1 * cos p2 = cos p2 * cos p1" by (rule mult.commute)
  show ?thesis using a b' c d e f by linarith
qed

lemma radians_bound:
  assumes "\<bar>x\<bar> \<le> 90"
  shows "\<bar>radians x\<bar> \<le> pi / 2"
proof -
  have "\<bar>radians x\<bar> = \<bar>x\<bar> * (pi / 180)" by (simp add: radians_def abs_mult)
  also have "\<dots> \<le> 90 * (pi / 180)" by (rule mult_right_mono[OF assms]) simp
  finally show ?thesis by simp
qed

lemma calculate_distance_same: "calculate_distance la lo la lo = Inr 0"
  by (simp add: calculate_distance_def Let_def)

lemma calculate_distance_nonneg:
  assumes "calculate_distance lat1 lng1 lat2 lng2 = Inr d"
  shows "0 \<le> d"
proof -
  define a where "a = (sin ((radians lat2 - radians lat1) / 2))\<^sup>2
      + cos (radians lat1) * cos (radians lat2) * (sin ((radians lng2 - radians lng1) / 2))\<^sup>2"
  have eq: "calculate_distance lat1 lng1 lat2 lng2 =
     (if a < 0 then Inl ValueError else if 1 < sqrt a then Inl ValueError
      else Inr (6371 * (2 * arcsin (sqrt a))))"
    by (simp add: calculate_distance_def Let_def a_def)
  from assms eq have a0: "0 \<le> a" and a1: "sqrt a \<le> 1" and d: "d = 6371 * (2 * arcsin (sqrt a))"
    by (auto split: if_splits)
  have "0 \<le> sqrt a" using a0 by simp
  then have "0 \<le> arcsin (sqrt a)" using a1 by (intro arcsin_nonneg) simp
  then show ?thesis using d by simp
qed

lemma calculate_distance_valid:
  assumes "\<bar>lat1\<bar> \<le> 90" "\<bar>lat2\<bar> \<le> 90"
  shows "\<exists>d. calculate_distance lat1 lng1 lat2 lng2 = Inr d"
proof -
  define a where "a = (sin ((radians lat2 - radians lat1) / 2))\<^sup>2
      + cos (radians lat1) * cos (radians lat2) * (sin ((radians lng2 - radians lng1) / 2))\<^sup>2"
  have eq: "calculate_distance lat1 lng1 lat2 lng2 =
     (if a < 0 then Inl ValueError else if 1 < sqrt a then Inl ValueError
      else Inr (6371 * (2 * arcsin (sqrt a))))"
    by (simp add: calculate_distance_def Let_def a_def)
  have a0: "0 \<le> a" unfolding a_def
    by (rule hav_nonneg[OF radians_bound[OF assms(1)] radians_bound[OF assms(2)]])
  have a1: "a \<le> 1" unfolding a_def
    by (rule hav_le_1[OF radians_bound[OF assms(1)] radians_bound[OF assms(2)]])
  have "sqrt a \<le> 1" using a1 by simp
  then show ?thesis using a0 eq by simp
qed

lemma calculate_distance_great_circle:
  assumes "\<bar>lat1\<bar> \<le> 90" "\<bar>lat2\<bar> \<le> 90"
  shows "calculate_distance lat1 lng1 lat2 lng2 = Inr (great_circle lat1 lng1 lat2 lng2)"
  using calculate_distance_valid[OF assms, of lng1 lng2] by (auto simp: great_circle_def)

lemma great_circle_nonneg: "0 \<le> great_circle lat1 lng1 lat2 lng2"
  using calculate_distance_nonneg[of lat1 lng1 lat2 lng2]
  by (auto simp: great_circle_def split: sum.splits)

lemma great_circle_same: "great_circle la lo la lo = 0"
  by (simp add: great_circle_def calculate_distance_same)

text \<open>Along a meridian the distance is the latitude difference times a constant.\<close>

lemma calculate_distance_meridian:
  assumes "\<bar>lat2 - lat1\<bar> \<le> 180"
  shows "calculate_distance lat1 lg lat2 lg = Inr (km_per_degree * \<bar>lat2 - lat1\<bar>)"
proof -
  define x where "x = (radians lat2 - radians lat1) / 2"
  have x: "x = (lat2 - lat1) * (pi / 360)" by (simp add: x_def radians_def field_simps)
  have "\<bar>x\<bar> = \<bar>lat2 - lat1\<bar> * (pi / 360)" unfolding x by (simp add: abs_mult)
  also have "\<dots> \<le> 180 * (pi / 360)" by (rule mult_right_mono[OF assms]) simp
  finally have xb: "\<bar>x\<bar> \<le> pi / 2" by simp
  have sq: "sqrt ((sin x)\<^sup>2) = \<bar>sin x\<bar>" by simp
  have as: "arcsin \<bar>sin x\<bar> = \<bar>x\<bar>"
  proof (cases "0 \<le> x")
    case True
    then have "0 \<le> sin x" using xb by (intro sin_ge_zero) (auto simp: abs_le_iff)
    then have "arcsin \<bar>sin x\<bar> = arcsin (sin x)" by simp
    also have "\<dots> = x" using xb by (intro arcsin_sin) (auto simp: abs_le_iff)
    finally show ?thesis using True by simp
  next
    case False
    then have "0 \<le> sin (- x)" using xb by (intro sin_ge_zero) (auto simp: abs_le_iff)
    then have "\<bar>sin x\<bar> = sin (- x)" by simp
    then have "arcsin \<bar>sin x\<bar> = arcsin (sin (- x))" by simp
    also have "\<dots> = - x" using xb by (intro arcsin_sin) (auto simp: abs_le_iff)
    finally show ?thesis using False by simp
  qed
  have "calculate_distance lat1 lg lat2 lg = Inr (6371 * (2 * arcsin (sqrt ((sin x)\<^sup>2))))"
    unfolding calculate_distance_def Let_def x_def[symmetric] by (simp add: not_less)
  also have "\<dots> = Inr (6371 * (2 * \<bar>x\<bar>))" unfolding sq as ..
  also have "6371 * (2 * \<bar>x\<bar>) = km_per_degree * \<bar>lat2 - lat1\<bar>"
    unfolding x km_per_degree_def by (simp add: abs_mult)
  finally show ?thesis .
qed

lemma km_per_degree_pos: "0 < km_per_degree"
  by (simp add: km_per_degree_def)

text \<open>
  Between two meridians 180 degrees apart the shortest way leads over a pole: the
  distance is 180 degrees less the sum of the latitudes, times the same constant.
\<close>

lemma cos_product: "cos (y - x) * cos (y + x) = (cos y)\<^sup>2 - (sin x)\<^sup>2" for x y :: real
proof -
  have "cos (y - x) * cos (y + x) = (cos y)\<^sup>2 * (cos x)\<^sup>2 - (sin y)\<^sup>2 * (sin x)\<^sup>2"
    by (simp add: cos_add cos_diff power2_eq_square algebra_simps)
  also have "\<dots> = (cos y)\<^sup>2 * (1 - (sin x)\<^sup>2) - (1 - (cos y)\<^sup>2) * (sin x)\<^sup>2"
    by (simp only: cos_squared_eq[of x] sin_squared_eq[of y])
  also have "\<dots> = (cos y)\<^sup>2 - (sin x)\<^sup>2"
    by (simp add: algebra_simps)
  finally show ?thesis .
qed

lemma calculate_distance_over_pole:
  assumes g: "\<bar>lg2 - lg1\<bar> = 180" and l: "\<bar>lat1 + lat2\<bar> \<le> 180"
  shows "calculate_distance lat1 lg1 lat2 lg2 = Inr (km_per_degree * (180 - \<bar>lat1 + lat2\<bar>))"
proof -
  define x where "x = (radians lat2 - radians lat1) / 2"
  define y where "y = (radians lat1 + radians lat2) / 2"
  have p1: "radians lat1 = y - x" and p2: "radians lat2 = y + x"
    by (simp_all add: x_def y_def field_simps)
  have yv: "y = (lat1 + lat2) * (pi / 360)" by (simp add: y_def radians_def field_simps)
  have ya: "\<bar>y\<bar> = \<bar>lat1 + lat2\<bar> * (pi / 360)" unfolding yv by (simp add: abs_mult)
  also have "\<dots> \<le> 180 * (pi / 360)" by (rule mult_right_mono[OF l]) simp
  finally have yb: "\<bar>y\<bar> \<le> pi / 2" by simp
  define z where "z = (radians lg2 - radians lg1) / 2"
  have zv: "z = (lg2 - lg1) * (pi / 360)" by (simp add: z_def radians_def field_simps)
  have "lg2 - lg1 = 180 \<or> lg2 - lg1 = - 180" using g by linarith
  then have "z = pi / 2 \<or> z = - (pi / 2)" unfolding zv by auto
  then have s1: "(sin z)\<^sup>2 = 1"
  proof
    assume "z = pi / 2"
    then have "sin z = 1" by (simp only: sin_pi_half)
    then show ?thesis by simp
  next
    assume "z = - (pi / 2)"
    then have "sin z = - 1" by (simp only: sin_minus sin_pi_half)
    then show ?thesis by simp
  qed
  have a: "(sin x)\<^sup>2 + cos (y - x) * cos (y + x) = (cos y)\<^sup>2"
    by (simp add: cos_product)
  have c0: "0 \<le> cos y" using yb by (intro cos_ge_zero) (auto simp: abs_le_iff)
  have sq: "sqrt ((cos y)\<^sup>2) = cos y" using c0 by simp
  have "cos y = cos \<bar>y\<bar>" by simp
  also have "\<dots> = sin (pi / 2 - \<bar>y\<bar>)" by (simp add: sin_diff)
  finally have cs: "cos y = sin (pi / 2 - \<bar>y\<bar>)" .
  have as: "arcsin (cos y) = pi / 2 - \<bar>y\<bar>"
    unfolding cs using yb by (intro arcsin_sin) auto
  have "calculate_distance lat1 lg1 lat2 lg2 = Inr (6371 * (2 * arcsin (sqrt ((cos y)\<^sup>2))))"
    unfolding calculate_distance_def Let_def x_def[symmetric] z_def[symmetric] s1 p1 p2
    using c0 by (simp add: a not_less)
  also have "\<dots> = Inr (6371 * (2 * (pi / 2 - \<bar>y\<bar>)))" unfolding sq as ..
  also have "6371 * (2 * (pi / 2 - \<bar>y\<bar>)) = km_per_degree * (180 - \<bar>lat1 + lat2\<bar>)"
    unfolding ya km_per_degree_def by (simp add: algebra_simps)
  finally show ?thesis .
qed

lemma great_circle_over_pole:
  "\<bar>lg2 - lg1\<bar> = 180 \<Longrightarrow> \<bar>lat1 + lat2\<bar> \<le> 180 \<Longrightarrow>
     great_circle lat1 lg1 lat2 lg2 = km_per_degree * (180 - \<bar>lat1 + lat2\<bar>)"
  by (simp add: great_circle_def calculate_distance_over_pole)

section \<open>Resolving names in the catalog\<close>

lemma find_city_coordinates_None_iff:
  "find_city_coordinates cs n = (None, None) \<longleftrightarrow> (\<forall>c\<in>set cs. lower (name c) \<noteq> lower n)"
  by (induction cs) auto

lemma find_city_coordinates_Some:
  "find_city_coordinates cs n = (Some la, Some lo)
     \<Longrightarrow> \<exists>c\<in>set cs. lat c = la \<and> lng c = lo \<and> lower (name c) = lower n"
  by (induction cs) (auto split: if_splits)

lemma find_city_coordinates_cases:
  "find_city_coordinates cs n = (None, None)
   \<or> (\<exists>la lo. find_city_coordinates cs n = (Some la, Some lo))"
  by (induction cs) auto

lemma lower_examples:
  "lower ''a'' = ''a''" "lower ''b'' = ''b''" "lower ''w'' = ''w''" "lower ''x'' = ''x''"
  "lower ''paris'' = ''paris''"
  by code_simp+

section \<open>Unresolved locations\<close>

text \<open>
  C4. When the origin name or the destination name matches no entry of the catalog,
  \<^verbatim>\<open>recommend_routes\<close> returns the empty list: it raises nothing and leaves the recommender as
  it was.
\<close>

theorem unresolved_location_returns_empty:
  assumes "(\<forall>c\<in>set (cities_data self). lower (name c) \<noteq> lower origin)
         \<or> (\<forall>c\<in>set (cities_data self). lower (name c) \<noteq> lower destination)"
  shows "recommend_routes self origin destination prefs budget duration_days = Inr ([], self)"
proof -
  from assms have "find_city_coordinates (cities_data self) origin = (None, None)
      \<or> find_city_coordinates (cities_data self) destination = (None, None)"
    by (simp add: find_city_coordinates_None_iff)
  then show ?thesis
    by (auto simp: recommend_routes_def truthy_def split: prod.splits)
qed

theorem unresolved_location_witness:
  "recommend_routes (catalog_of [city_a, city_b]) ''paris'' ''b'' Map.empty (Some 100) (Some 2)
     = Inr ([], catalog_of [city_a, city_b])"
proof -
  have h: "\<forall>c\<in>set (cities_data (catalog_of [city_a, city_b])). lower (name c) \<noteq> lower ''paris''"
    by (simp add: catalog_of_def city_a_def city_b_def city_at_def lower_examples)
  show ?thesis
    using h unresolved_location_returns_empty
            [of "catalog_of [city_a, city_b]" "''paris''" "''b''" Map.empty "Some 100" "Some 2"]
    by blast
qed

section \<open>Zero-valued constraints\<close>

lemma rank_routes_zero_budget: "rank_routes routes (Some 0) d = rank_routes routes None d"
  by (simp add: rank_routes_def truthy_def)

lemma rank_routes_zero_duration: "rank_routes routes b (Some 0) = rank_routes routes b None"
  by (simp add: rank_routes_def truthy_int_def)

section \<open>The ranker\<close>

lemma sort_desc_descending: "descending (sort_desc score rs)"
proof -
  have "sorted (map (\<lambda>x. - score x) (sort_key (\<lambda>x. - score x) rs))"
    by (rule sorted_sort_key)
  then show ?thesis
    by (simp add: descending_def sort_desc_def sorted_map sorted_wrt_iff_nth_less)
qed

lemma mset_sort_desc: "mset (sort_desc k rs) = mset rs"
  by (simp add: sort_desc_def)

lemma set_sort_desc: "set (sort_desc k rs) = set rs"
  by (simp add: sort_desc_def)

lemma length_sort_desc: "length (sort_desc k rs) = length rs"
  by (simp add: sort_desc_def)

lemma descending_filter: "descending rs \<Longrightarrow> descending (filter P rs)"
  by (simp add: descending_def sorted_wrt_filter)

lemma descending_take: "descending rs \<Longrightarrow> descending (take n rs)"
  by (simp add: descending_def)

lemma rank_routes_eq:
  "rank_routes routes budget duration_days =
     take max_routes_per_request
       (filter (within_constraints budget duration_days) (sort_desc score routes))"
  by (cases budget; cases duration_days)
     (auto simp: rank_routes_def within_constraints_def truthy_def truthy_int_def Let_def
           intro!: arg_cong[where f="take max_routes_per_request"] filter_cong)

text \<open>
  C5, as stated, fails: a budget of 0 is strictly below the costs 150 and 300, and both
  candidates are returned.
\<close>

theorem ranker_zero_budget_counterexample:
  "rank_routes [route_with 150 10 1, route_with 300 30 2] (Some 0) None
     = [route_with 300 30 2, route_with 150 10 1]
   \<and> 0 < cost (route_with 150 10 1) \<and> 0 < cost (route_with 300 30 2)"
  by (simp add: rank_routes_def truthy_def truthy_int_def sort_desc_def
        max_routes_per_request_def route_with_def direct_route_def)

text \<open>
  C5, amended. The ranker returns the first 5 of the candidates, stably sorted by
  descending score, that pass the hard filters, where a budget or a duration that is
  absent or 0 filters nothing. The sorted list is a permutation of the candidates, the
  result is in descending score order and has at most 5 entries, and a non-zero budget
  strictly below every candidate's cost yields the empty list.
\<close>

theorem ranker_sorts_filters_truncates:
  "rank_routes routes budget duration_days =
     take max_routes_per_request
       (filter (within_constraints budget duration_days) (sort_desc score routes))
   \<and> mset (sort_desc score routes) = mset routes
   \<and> descending (sort_desc score routes)
   \<and> descending (rank_routes routes budget duration_days)
   \<and> length (rank_routes routes budget duration_days) \<le> 5
   \<and> ((\<exists>b. budget = Some b \<and> b \<noteq> 0 \<and> (\<forall>r\<in>set routes. b < cost r))
        \<longrightarrow> rank_routes routes budget duration_days = [])"
proof -
  have e: "rank_routes routes budget duration_days =
     take max_routes_per_request
       (filter (within_constraints budget duration_days) (sort_desc score routes))"
    by (rule rank_routes_eq)
  have d: "descending (rank_routes routes budget duration_days)"
    unfolding e by (intro descending_take descending_filter sort_desc_descending)
  have l: "length (rank_routes routes budget duration_days) \<le> 5"
    unfolding e by (simp add: max_routes_per_request_def)
  have b: "rank_routes routes budget duration_days = []"
    if "\<exists>b. budget = Some b \<and> b \<noteq> 0 \<and> (\<forall>r\<in>set routes. b < cost r)"
  proof -
    from that obtain b where b: "budget = Some b" "b \<noteq> 0" "\<forall>r\<in>set routes. b < cost r"
      by blast
    have "filter (within_constraints budget duration_days) (sort_desc score routes) = []"
      using b by (auto simp: filter_empty_conv set_sort_desc within_constraints_def)
    then show ?thesis unfolding e by simp
  qed
  show ?thesis using e d l b mset_sort_desc sort_desc_descending by blast
qed

text \<open>The budget scenario of the specification: budget 100, costs 150 and 300.\<close>

theorem ranker_budget_witness:
  "rank_routes [route_with 150 10 1, route_with 300 30 2] (Some 100) None = []"
proof -
  have h: "\<exists>b. Some (100::real) = Some b \<and> b \<noteq> 0
             \<and> (\<forall>r\<in>set [route_with 150 10 1, route_with 300 30 2]. b < cost r)"
    by (simp add: route_with_def direct_route_def)
  from ranker_sorts_filters_truncates
         [of "[route_with 150 10 1, route_with 300 30 2]" "Some 100" None] h
  show ?thesis by blast
qed

section \<open>The loop over the catalog\<close>

lemma insort_key_agree:
  "\<forall>y\<in>set (x # xs). f y = g y \<Longrightarrow> insort_key f x xs = insort_key g x xs"
  by (induction xs) auto

lemma sort_key_agree:
  "\<forall>x\<in>set xs. f x = g x \<Longrightarrow> sort_key f xs = sort_key g xs"
proof (induction xs)
  case Nil
  show ?case by simp
next
  case (Cons x xs)
  then have e: "sort_key f xs = sort_key g xs" by simp
  have "\<forall>y\<in>set (x # sort_key g xs). f y = g y" using Cons.prems by simp
  from insort_key_agree[OF this] show ?case by (simp add: e)
qed


lemma detour_of_valid:
  assumes "\<bar>olat\<bar> \<le> 90" "\<bar>dlat\<bar> \<le> 90" "\<bar>lat c\<bar> \<le> 90"
  shows "detour_of olat olng dlat dlng c =
           Inr (if waypoint_accepted olat olng dlat dlng c
                then Some (detour_ratio_of olat olng dlat dlng c) else None)"
proof -
  have d1: "calculate_distance olat olng (lat c) (lng c) = Inr (great_circle olat olng (lat c) (lng c))"
    by (rule calculate_distance_great_circle[OF assms(1) assms(3)])
  have d2: "calculate_distance (lat c) (lng c) dlat dlng = Inr (great_circle (lat c) (lng c) dlat dlng)"
    by (rule calculate_distance_great_circle[OF assms(3) assms(2)])
  have d3: "calculate_distance olat olng dlat dlng = Inr (great_circle olat olng dlat dlng)"
    by (rule calculate_distance_great_circle[OF assms(1) assms(2)])
  have nz: "great_circle olat olng dlat dlng \<noteq> 0"
    if "great_circle olat olng (lat c) (lng c) < great_circle olat olng dlat dlng"
    using that great_circle_nonneg[of olat olng "lat c" "lng c"] by linarith
  show ?thesis
    unfolding detour_of_def d1 d2 d3
    using nz by (simp add: waypoint_accepted_def detour_ratio_of_def Let_def)
qed

lemma intermediate_loop_valid:
  assumes "\<bar>olat\<bar> \<le> 90" "\<bar>dlat\<bar> \<le> 90" "\<forall>c\<in>set cs. \<bar>lat c\<bar> \<le> 90"
  shows "intermediate_loop olat olng dlat dlng cs =
           Inr (map (mark_city olat olng dlat dlng) cs,
                map (mark_city olat olng dlat dlng) (filter (waypoint_accepted olat olng dlat dlng) cs))"
  using assms(3)
proof (induction cs)
  case Nil
  show ?case by simp
next
  case (Cons c cs)
  then have c: "\<bar>lat c\<bar> \<le> 90" and cs: "\<forall>c\<in>set cs. \<bar>lat c\<bar> \<le> 90" by simp_all
  show ?case
    by (simp add: detour_of_valid[OF assms(1) assms(2) c] Cons.IH[OF cs] mark_city_def)
qed

lemma detour_key_mark:
  "waypoint_accepted olat olng dlat dlng c \<Longrightarrow>
     detour_key (mark_city olat olng dlat dlng c) = detour_ratio_of olat olng dlat dlng c"
  by (simp add: detour_key_def mark_city_def)

lemma find_intermediate_cities_valid:
  assumes "\<bar>olat\<bar> \<le> 90" "\<bar>dlat\<bar> \<le> 90" "\<forall>c\<in>set (cities_data self). \<bar>lat c\<bar> \<le> 90"
  shows "find_intermediate_cities self olat olng dlat dlng =
           Inr (sort_key detour_key
                  (map (mark_city olat olng dlat dlng)
                     (filter (waypoint_accepted olat olng dlat dlng) (cities_data self))),
                self\<lparr>cities_data := map (mark_city olat olng dlat dlng) (cities_data self)\<rparr>)"
proof -
  have k: "\<not> (\<exists>c\<in>set (map (mark_city olat olng dlat dlng)
                     (filter (waypoint_accepted olat olng dlat dlng) (cities_data self))).
              detour_ratio c = None)"
    by (auto simp: mark_city_def)
  show ?thesis
    unfolding find_intermediate_cities_def intermediate_loop_valid[OF assms]
    using k by simp
qed

lemma find_city_coordinates_mark:
  "find_city_coordinates (map (mark_city olat olng dlat dlng) cs) n = find_city_coordinates cs n"
  by (induction cs) (auto simp: mark_city_def)

lemma intermediate_loop_frame:
  "intermediate_loop olat olng dlat dlng cs = Inr (cs', acc)
     \<Longrightarrow> map without_detour_ratio cs' = map without_detour_ratio cs"
proof (induction cs arbitrary: cs' acc)
  case Nil
  then show ?case by simp
next
  case (Cons c cs)
  then show ?case
    by (auto simp: without_detour_ratio_def split: sum.splits option.splits prod.splits)
qed


section \<open>The simple score\<close>

lemma inverse_score_nonneg:
  "0 \<le> x \<Longrightarrow> 0 < n \<Longrightarrow> inverse_score x n = Inr (1 / (1 + x / n))"
proof -
  assume a: "0 \<le> x" "0 < n"
  then have "0 \<le> x / n" by simp
  then have "1 + x / n \<noteq> 0" by linarith
  then show ?thesis by (simp add: inverse_score_def)
qed

lemma add_term_Inr:
  "add_term prefs key (Inr s) sc = Inr (sc + weight prefs key * s)"
  by (simp add: add_term_def weight_def split: option.splits)

lemma get_route_score_total:
  assumes "0 \<le> distance r" "0 \<le> cost r" "0 \<le> route_population r"
  shows "get_route_score r prefs = Inr (score_value r prefs)"
  unfolding get_route_score_def
  by (simp add: inverse_score_nonneg assms add_term_Inr score_value_def)

lemma get_route_score_ignores_score:
  "get_route_score (r\<lparr>score := s\<rparr>) prefs = get_route_score r prefs"
  by (simp add: get_route_score_def cong: sum.case_cong)

lemma unit_fraction_bounds:
  assumes "0 \<le> x" "0 < n"
  shows "0 \<le> 1 / (1 + x / n)" "1 / (1 + x / n) \<le> (1::real)"
proof -
  have "0 \<le> x / n" using assms by simp
  then have p: "1 \<le> 1 + x / n" by linarith
  then show "0 \<le> 1 / (1 + x / n)" by simp
  from p show "1 / (1 + x / n) \<le> 1" by (simp add: divide_le_eq_1)
qed

lemma weighted_term_bounds:
  assumes "0 \<le> w" "0 \<le> s" "s \<le> (1::real)"
  shows "0 \<le> w * s" "w * s \<le> w"
proof -
  show "0 \<le> w * s" using assms by simp
  have "w * s \<le> w * 1" by (rule mult_left_mono) (use assms in auto)
  then show "w * s \<le> w" by simp
qed

lemma score_value_bounds:
  assumes "0 \<le> distance r" "0 \<le> cost r" "0 \<le> route_population r"
    and "0 \<le> weight prefs ''fastest''" "0 \<le> weight prefs ''cheapest''"
        "0 \<le> weight prefs ''scenic''" "0 \<le> weight prefs ''quiet''"
  shows "0 \<le> score_value r prefs" "score_value r prefs \<le> total_weight prefs"
proof -
  have s: "0 \<le> min (real (length (attractions r)) / 10) 1" "min (real (length (attractions r)) / 10) 1 \<le> 1"
    by simp_all
  note f = weighted_term_bounds[OF assms(4) unit_fraction_bounds[OF assms(1), of 100]]
  note c = weighted_term_bounds[OF assms(5) unit_fraction_bounds[OF assms(2), of 1000]]
  note a = weighted_term_bounds[OF assms(6) s]
  note q = weighted_term_bounds[OF assms(7) unit_fraction_bounds[OF assms(3), of 1000000]]
  have f1: "0 \<le> weight prefs ''fastest'' * (1 / (1 + distance r / 100))" using f(1) by simp
  have f2: "weight prefs ''fastest'' * (1 / (1 + distance r / 100)) \<le> weight prefs ''fastest''" using f(2) by simp
  have c1: "0 \<le> weight prefs ''cheapest'' * (1 / (1 + cost r / 1000))" using c(1) by simp
  have c2: "weight prefs ''cheapest'' * (1 / (1 + cost r / 1000)) \<le> weight prefs ''cheapest''" using c(2) by simp
  have q1: "0 \<le> weight prefs ''quiet'' * (1 / (1 + route_population r / 1000000))" using q(1) by simp
  have q2: "weight prefs ''quiet'' * (1 / (1 + route_population r / 1000000)) \<le> weight prefs ''quiet''" using q(2) by simp
  show "0 \<le> score_value r prefs"
    unfolding score_value_def using f1 c1 a(1) q1 by linarith
  show "score_value r prefs \<le> total_weight prefs"
    unfolding score_value_def total_weight_def using f2 c2 a(2) q2 by linarith
qed


section \<open>Routes with a stop\<close>

lemma stops_route_fields:
  "rtype (stops_route self origin destination c d1 d2) = with_stops"
  "intermediate_city (stops_route self origin destination c d1 d2) = Some (name c)"
  "distance (stops_route self origin destination c d1 d2) = d1 + d2"
  "route_population (stops_route self origin destination c d1 d2)
     = (case population c of None \<Rightarrow> 0 | Some p \<Rightarrow> p)"
  by (simp_all add: stops_route_def Let_def)

lemma stops_route_nonneg:
  assumes "0 \<le> d1" "0 \<le> d2"
  shows "0 \<le> cost (stops_route self origin destination c d1 d2)"
    and "0 \<le> duration (stops_route self origin destination c d1 d2)"
  using assms by (simp_all add: stops_route_def Let_def)

lemma create_route_with_stops_props:
  assumes "create_route_with_stops self origin destination c prefs = Inr r"
  shows "rtype r = with_stops \<and> intermediate_city r = Some (name c)
         \<and> 0 \<le> distance r \<and> 0 \<le> cost r \<and> 0 \<le> duration r
         \<and> route_population r = (case population c of None \<Rightarrow> 0 | Some p \<Rightarrow> p)
         \<and> get_route_score r prefs = Inr (score r)"
proof -
  from assms obtain olat olng dlat dlng d1 d2 s where
    d1: "calculate_distance olat olng (lat c) (lng c) = Inr d1" and
    d2: "calculate_distance (lat c) (lng c) dlat dlng = Inr d2" and
    s: "get_route_score (stops_route self origin destination c d1 d2) prefs = Inr s" and
    r: "r = (stops_route self origin destination c d1 d2)\<lparr>score := s\<rparr>"
    unfolding create_route_with_stops_def
    by (auto split: prod.splits option.splits sum.splits)
  have n1: "0 \<le> d1" by (rule calculate_distance_nonneg[OF d1])
  have n2: "0 \<le> d2" by (rule calculate_distance_nonneg[OF d2])
  have "get_route_score r prefs = Inr s"
    unfolding r get_route_score_ignores_score by (rule s)
  then show ?thesis
    using n1 n2 stops_route_nonneg[OF n1 n2, of self origin destination c]
    by (simp add: r stops_route_fields)
qed

lemma valid_city_mark: "valid_city (mark_city olat olng dlat dlng c) = valid_city c"
  by (simp add: valid_city_def mark_city_def)

lemma name_mark: "name (mark_city olat olng dlat dlng c) = name c"
  by (simp add: mark_city_def)

lemma create_route_with_stops_total:
  assumes o: "find_city_coordinates (cities_data self) origin = (Some olat, Some olng)"
      and d: "find_city_coordinates (cities_data self) destination = (Some dlat, Some dlng)"
      and v: "\<bar>olat\<bar> \<le> 90" "\<bar>dlat\<bar> \<le> 90" "valid_city c"
  shows "\<exists>r. create_route_with_stops self origin destination c prefs = Inr r"
proof -
  have c: "\<bar>lat c\<bar> \<le> 90" and p: "0 \<le> (case population c of None \<Rightarrow> 0 | Some p \<Rightarrow> p)"
    using v(3) by (auto simp: valid_city_def split: option.splits)
  define g1 where "g1 = great_circle olat olng (lat c) (lng c)"
  define g2 where "g2 = great_circle (lat c) (lng c) dlat dlng"
  have d1: "calculate_distance olat olng (lat c) (lng c) = Inr g1"
    unfolding g1_def by (rule calculate_distance_great_circle[OF v(1) c])
  have d2: "calculate_distance (lat c) (lng c) dlat dlng = Inr g2"
    unfolding g2_def by (rule calculate_distance_great_circle[OF c v(2)])
  have n1: "0 \<le> g1" unfolding g1_def by (rule great_circle_nonneg)
  have n2: "0 \<le> g2" unfolding g2_def by (rule great_circle_nonneg)
  have "get_route_score (stops_route self origin destination c g1 g2) prefs
          = Inr (score_value (stops_route self origin destination c g1 g2) prefs)"
    by (rule get_route_score_total)
       (use n1 n2 p stops_route_nonneg[OF n1 n2] in \<open>simp_all add: stops_route_fields\<close>)
  then show ?thesis
    by (simp add: create_route_with_stops_def o d d1 d2)
qed

lemma create_routes_props:
  "create_routes self origin destination prefs cs = Inr rs \<Longrightarrow>
     map intermediate_city rs = map (\<lambda>c. Some (name c)) cs
     \<and> list_all (\<lambda>r. rtype r = with_stops \<and> 0 \<le> distance r \<and> 0 \<le> cost r
                   \<and> get_route_score r prefs = Inr (score r)) rs
     \<and> map route_population rs = map (\<lambda>c. case population c of None \<Rightarrow> 0 | Some p \<Rightarrow> p) cs"
proof (induction cs arbitrary: rs)
  case Nil
  then show ?case by simp
next
  case (Cons c cs)
  from Cons.prems obtain r rs' where
    r: "create_route_with_stops self origin destination c prefs = Inr r" and
    rs': "create_routes self origin destination prefs cs = Inr rs'" and
    rs: "rs = r # rs'"
    by (auto split: sum.splits)
  show ?case
    using create_route_with_stops_props[OF r] Cons.IH[OF rs'] by (simp add: rs)
qed

lemma create_routes_total:
  assumes o: "find_city_coordinates (cities_data self) origin = (Some olat, Some olng)"
      and d: "find_city_coordinates (cities_data self) destination = (Some dlat, Some dlng)"
      and v: "\<bar>olat\<bar> \<le> 90" "\<bar>dlat\<bar> \<le> 90"
  shows "list_all valid_city cs \<Longrightarrow> \<exists>rs. create_routes self origin destination prefs cs = Inr rs"
proof (induction cs)
  case Nil
  show ?case by simp
next
  case (Cons c cs)
  then have c: "valid_city c" and cs: "list_all valid_city cs" by simp_all
  from create_route_with_stops_total[OF o d v c, of prefs] obtain r where
    r: "create_route_with_stops self origin destination c prefs = Inr r" by blast
  from Cons.IH[OF cs] obtain rs where
    rs: "create_routes self origin destination prefs cs = Inr rs" by blast
  show ?case by (simp add: r rs)
qed


section \<open>Candidate generation on a valid catalog\<close>

lemma find_intermediate_cities_marked:
  assumes "\<bar>olat\<bar> \<le> 90" "\<bar>dlat\<bar> \<le> 90" "\<forall>c\<in>set (cities_data self). \<bar>lat c\<bar> \<le> 90"
  shows "find_intermediate_cities self olat olng dlat dlng =
           Inr (accepted_waypoints self olat olng dlat dlng, marked self olat olng dlat dlng)"
  unfolding accepted_waypoints_def marked_def by (rule find_intermediate_cities_valid[OF assms])

lemma valid_catalog_lat: "valid_catalog self \<Longrightarrow> \<forall>c\<in>set (cities_data self). \<bar>lat c\<bar> \<le> 90"
  by (simp add: valid_catalog_def list_all_iff valid_city_def)

lemma resolved_lat:
  assumes "valid_catalog self" "find_city_coordinates (cities_data self) n = (Some la, Some lo)"
  shows "\<bar>la\<bar> \<le> 90"
  using find_city_coordinates_Some[OF assms(2)] valid_catalog_lat[OF assms(1)] by auto

lemma accepted_waypoints_valid:
  "valid_catalog self \<Longrightarrow> list_all valid_city (accepted_waypoints self olat olng dlat dlng)"
  by (auto simp: valid_catalog_def accepted_waypoints_def list_all_iff valid_city_mark)

lemma list_all_take: "list_all P xs \<Longrightarrow> list_all P (take n xs)"
  by (auto simp: list_all_iff dest: in_set_takeD)

lemma marked_lookup:
  "find_city_coordinates (cities_data (marked self olat olng dlat dlng)) n
     = find_city_coordinates (cities_data self) n"
  by (simp add: marked_def find_city_coordinates_mark)

lemma direct_route_score:
  assumes "0 \<le> D"
  shows "get_route_score (direct_route origin destination D) prefs
           = Inr (score_value (direct_route origin destination D) prefs)"
  by (rule get_route_score_total) (use assms in \<open>simp_all add: direct_route_def\<close>)

lemma candidate_routes_valid:
  assumes v: "valid_catalog self"
      and o: "find_city_coordinates (cities_data self) origin = (Some olat, Some olng)"
      and d: "find_city_coordinates (cities_data self) destination = (Some dlat, Some dlng)"
  shows "\<exists>rs. create_routes (marked self olat olng dlat dlng) origin destination prefs
                 (take 3 (accepted_waypoints self olat olng dlat dlng)) = Inr rs
            \<and> candidate_routes self origin destination prefs olat olng dlat dlng =
                 Inr ((direct_route origin destination (great_circle olat olng dlat dlng))
                        \<lparr>score := score_value (direct_route origin destination
                                                 (great_circle olat olng dlat dlng)) prefs\<rparr> # rs,
                      marked self olat olng dlat dlng)"
proof -
  have lo: "\<bar>olat\<bar> \<le> 90" by (rule resolved_lat[OF v o])
  have ld: "\<bar>dlat\<bar> \<le> 90" by (rule resolved_lat[OF v d])
  have D: "calculate_distance olat olng dlat dlng = Inr (great_circle olat olng dlat dlng)"
    by (rule calculate_distance_great_circle[OF lo ld])
  have s: "get_route_score (direct_route origin destination (great_circle olat olng dlat dlng)) prefs
        = Inr (score_value (direct_route origin destination (great_circle olat olng dlat dlng)) prefs)"
    by (rule direct_route_score[OF great_circle_nonneg])
  have f: "find_intermediate_cities self olat olng dlat dlng =
           Inr (accepted_waypoints self olat olng dlat dlng, marked self olat olng dlat dlng)"
    by (rule find_intermediate_cities_marked[OF lo ld valid_catalog_lat[OF v]])
  have o': "find_city_coordinates (cities_data (marked self olat olng dlat dlng)) origin = (Some olat, Some olng)"
    unfolding marked_lookup by (rule o)
  have d': "find_city_coordinates (cities_data (marked self olat olng dlat dlng)) destination = (Some dlat, Some dlng)"
    unfolding marked_lookup by (rule d)
  from create_routes_total[OF o' d' lo ld list_all_take[OF accepted_waypoints_valid[OF v], of 3],
         where prefs = prefs]
  obtain rs where rs: "create_routes (marked self olat olng dlat dlng) origin destination prefs
                 (take 3 (accepted_waypoints self olat olng dlat dlng)) = Inr rs" by blast
  show ?thesis
    by (rule exI[of _ rs]) (simp add: candidate_routes_def D s f rs)
qed

lemma sorted_accepted_waypoints:
  "sorted (map detour_key (accepted_waypoints self olat olng dlat dlng))"
  unfolding accepted_waypoints_def by (rule sorted_sort_key)

lemma set_accepted_waypoints:
  "set (accepted_waypoints self olat olng dlat dlng)
     = (\<lambda>c. c\<lparr>detour_ratio := Some (detour_ratio_of olat olng dlat dlng c)\<rparr>)
         ` {c \<in> set (cities_data self). waypoint_accepted olat olng dlat dlng c}"
  by (auto simp: accepted_waypoints_def mark_city_def)

lemma waypoint_accepted_cong:
  "lat c = lat c' \<Longrightarrow> lng c = lng c' \<Longrightarrow>
     waypoint_accepted olat olng dlat dlng c = waypoint_accepted olat olng dlat dlng c'"
  by (simp add: waypoint_accepted_def detour_ratio_of_def)

lemma accepted_iff_member:
  assumes "c \<in> set (cities_data self)"
  shows "c\<lparr>detour_ratio := Some (detour_ratio_of olat olng dlat dlng c)\<rparr>
           \<in> set (accepted_waypoints self olat olng dlat dlng)
         \<longleftrightarrow> waypoint_accepted olat olng dlat dlng c"
proof
  assume "c\<lparr>detour_ratio := Some (detour_ratio_of olat olng dlat dlng c)\<rparr>
           \<in> set (accepted_waypoints self olat olng dlat dlng)"
  then obtain c' where c': "waypoint_accepted olat olng dlat dlng c'"
    and e: "c\<lparr>detour_ratio := Some (detour_ratio_of olat olng dlat dlng c)\<rparr>
            = c'\<lparr>detour_ratio := Some (detour_ratio_of olat olng dlat dlng c')\<rparr>"
    unfolding set_accepted_waypoints by blast
  from e have "lat (c\<lparr>detour_ratio := Some (detour_ratio_of olat olng dlat dlng c)\<rparr>)
            = lat (c'\<lparr>detour_ratio := Some (detour_ratio_of olat olng dlat dlng c')\<rparr>)"
     and "lng (c\<lparr>detour_ratio := Some (detour_ratio_of olat olng dlat dlng c)\<rparr>)
            = lng (c'\<lparr>detour_ratio := Some (detour_ratio_of olat olng dlat dlng c')\<rparr>)"
    by simp_all
  then have "lat c = lat c'" "lng c = lng c'" by simp_all
  then show "waypoint_accepted olat olng dlat dlng c"
    using c' waypoint_accepted_cong by blast
next
  assume "waypoint_accepted olat olng dlat dlng c"
  then show "c\<lparr>detour_ratio := Some (detour_ratio_of olat olng dlat dlng c)\<rparr>
           \<in> set (accepted_waypoints self olat olng dlat dlng)"
    unfolding set_accepted_waypoints using assms by blast
qed

lemma detour_key_accepted:
  "c \<in> set (accepted_waypoints self olat olng dlat dlng)
     \<Longrightarrow> detour_ratio c = Some (detour_ratio_of olat olng dlat dlng c)"
  unfolding set_accepted_waypoints by (auto simp: detour_ratio_of_def)


section \<open>Catalogs on a meridian\<close>

lemma great_circle_meridian:
  "\<bar>lat2 - lat1\<bar> \<le> 180 \<Longrightarrow> great_circle lat1 lg lat2 lg = km_per_degree * \<bar>lat2 - lat1\<bar>"
  by (simp add: great_circle_def calculate_distance_meridian)

lemma km_less: "km_per_degree * x < km_per_degree * y \<longleftrightarrow> x < y"
  using km_per_degree_pos by simp

lemma km_ratio: "(km_per_degree * x + km_per_degree * y) / (km_per_degree * z) = (x + y) / z"
proof -
  have "km_per_degree * x + km_per_degree * y = km_per_degree * (x + y)"
    by (simp add: distrib_left)
  then show ?thesis using km_per_degree_pos by simp
qed

lemma waypoint_accepted_meridian:
  assumes "\<bar>la\<bar> \<le> 90" "\<bar>lb\<bar> \<le> 90" "\<bar>lat c\<bar> \<le> 90" "lng c = lg"
  shows "waypoint_accepted la lg lb lg c \<longleftrightarrow>
           \<bar>lat c - la\<bar> < \<bar>lb - la\<bar> \<and> \<bar>lb - lat c\<bar> < \<bar>lb - la\<bar>
           \<and> (\<bar>lat c - la\<bar> + \<bar>lb - lat c\<bar>) / \<bar>lb - la\<bar> < 1.5"
    and "detour_ratio_of la lg lb lg c = (\<bar>lat c - la\<bar> + \<bar>lb - lat c\<bar>) / \<bar>lb - la\<bar>"
proof -
  have b: "\<bar>lat c - la\<bar> \<le> 180" "\<bar>lb - lat c\<bar> \<le> 180" "\<bar>lb - la\<bar> \<le> 180"
    using assms(1-3) by linarith+
  have g: "great_circle la lg (lat c) (lng c) = km_per_degree * \<bar>lat c - la\<bar>"
          "great_circle (lat c) (lng c) lb lg = km_per_degree * \<bar>lb - lat c\<bar>"
          "great_circle la lg lb lg = km_per_degree * \<bar>lb - la\<bar>"
    unfolding assms(4) by (rule great_circle_meridian[OF b(1)] great_circle_meridian[OF b(2)]
                                great_circle_meridian[OF b(3)])+
  show r: "detour_ratio_of la lg lb lg c = (\<bar>lat c - la\<bar> + \<bar>lb - lat c\<bar>) / \<bar>lb - la\<bar>"
    unfolding detour_ratio_of_def g km_ratio ..
  show "waypoint_accepted la lg lb lg c \<longleftrightarrow>
           \<bar>lat c - la\<bar> < \<bar>lb - la\<bar> \<and> \<bar>lb - lat c\<bar> < \<bar>lb - la\<bar>
           \<and> (\<bar>lat c - la\<bar> + \<bar>lb - lat c\<bar>) / \<bar>lb - la\<bar> < 1.5"
    unfolding waypoint_accepted_def r unfolding g km_less ..
qed

lemma city_at_fields:
  "name (city_at n la lo) = n" "lat (city_at n la lo) = la" "lng (city_at n la lo) = lo"
  "population (city_at n la lo) = None" "detour_ratio (city_at n la lo) = None"
  by (simp_all add: city_at_def)

lemma example_cities:
  "name city_a = ''a''" "lat city_a = 10" "lng city_a = 50" "population city_a = None"
  "name city_w = ''w''" "lat city_w = 15" "lng city_w = 50" "population city_w = None"
  "name city_b = ''b''" "lat city_b = 20" "lng city_b = 50" "population city_b = None"
  "name city_x = ''x''" "lat city_x = 22" "lng city_x = 50" "population city_x = None"
  by (simp_all add: city_a_def city_w_def city_b_def city_x_def city_at_fields)

lemma example_valid: "valid_city city_a" "valid_city city_w" "valid_city city_b" "valid_city city_x"
  by (simp_all add: valid_city_def example_cities)

lemma example_accepted:
  "\<not> waypoint_accepted 10 50 20 50 city_a"
  "waypoint_accepted 10 50 20 50 city_w"
  "\<not> waypoint_accepted 10 50 20 50 city_b"
  "\<not> waypoint_accepted 10 50 20 50 city_x"
  "detour_ratio_of 10 50 20 50 city_w = 1"
  "detour_ratio_of 10 50 20 50 city_x = 14 / 10"
  by (simp_all add: waypoint_accepted_meridian example_cities)

lemma example_waypoints:
  "accepted_waypoints (catalog_of [city_a, city_w, city_b]) 10 50 20 50
     = [city_w\<lparr>detour_ratio := Some 1\<rparr>]"
  "marked (catalog_of [city_a, city_w, city_b]) 10 50 20 50
     = catalog_of [city_a, city_w\<lparr>detour_ratio := Some 1\<rparr>, city_b]"
  "accepted_waypoints (catalog_of [city_a, city_b, city_x]) 10 50 20 50 = []"
  "marked (catalog_of [city_a, city_b, city_x]) 10 50 20 50 = catalog_of [city_a, city_b, city_x]"
  by (simp_all add: accepted_waypoints_def marked_def catalog_of_def mark_city_def example_accepted)

lemma example_lookup:
  "find_city_coordinates [city_a, city_w, city_b] ''a'' = (Some 10, Some 50)"
  "find_city_coordinates [city_a, city_w, city_b] ''b'' = (Some 20, Some 50)"
  "find_city_coordinates [city_a, city_b, city_x] ''a'' = (Some 10, Some 50)"
  "find_city_coordinates [city_a, city_b, city_x] ''b'' = (Some 20, Some 50)"
  "find_city_coordinates [city_a] ''a'' = (Some 10, Some 50)"
  by (simp_all add: example_cities lower_examples)


section \<open>What a call returns\<close>

lemma rank_routes_unconstrained:
  "rank_routes routes None None = take max_routes_per_request (sort_desc score routes)"
  by (simp add: rank_routes_def truthy_def truthy_int_def)

lemma recommend_routes_valid:
  assumes v: "valid_catalog self"
      and o: "find_city_coordinates (cities_data self) origin = (Some olat, Some olng)"
      and d: "find_city_coordinates (cities_data self) destination = (Some dlat, Some dlng)"
      and nz: "olat \<noteq> 0" "olng \<noteq> 0" "dlat \<noteq> 0" "dlng \<noteq> 0"
  shows "\<exists>rs. create_routes (marked self olat olng dlat dlng) origin destination prefs
                 (take 3 (accepted_waypoints self olat olng dlat dlng)) = Inr rs
            \<and> recommend_routes self origin destination prefs budget duration_days =
                 Inr (rank_routes
                        ((direct_route origin destination (great_circle olat olng dlat dlng))
                           \<lparr>score := score_value (direct_route origin destination
                                                    (great_circle olat olng dlat dlng)) prefs\<rparr> # rs)
                        budget duration_days,
                      marked self olat olng dlat dlng)"
proof -
  from candidate_routes_valid[OF v o d, of prefs] obtain rs where
    rs: "create_routes (marked self olat olng dlat dlng) origin destination prefs
                 (take 3 (accepted_waypoints self olat olng dlat dlng)) = Inr rs" and
    c: "candidate_routes self origin destination prefs olat olng dlat dlng =
                 Inr ((direct_route origin destination (great_circle olat olng dlat dlng))
                        \<lparr>score := score_value (direct_route origin destination
                                                 (great_circle olat olng dlat dlng)) prefs\<rparr> # rs,
                      marked self olat olng dlat dlng)"
    by blast
  show ?thesis
    by (rule exI[of _ rs]) (simp add: recommend_routes_def o d nz truthy_def c rs)
qed

lemma length_accepted_waypoints:
  "length (accepted_waypoints self olat olng dlat dlng)
     = length (filter (waypoint_accepted olat olng dlat dlng) (cities_data self))"
  by (simp add: accepted_waypoints_def)

lemma create_routes_length:
  "create_routes self origin destination prefs cs = Inr rs \<Longrightarrow> length rs = length cs"
  using create_routes_props[of self origin destination prefs cs rs]
  by (metis length_map)

text \<open>
  C2, amended. When origin and destination resolve in a valid catalog to coordinates
  whose latitude and longitude are all non-zero, and neither budget nor duration is
  supplied, \<^verbatim>\<open>recommend_routes\<close> returns the direct route (whatever the direct distance)
  and one route for each of the first three accepted waypoints: more than one candidate
  whenever the catalog holds a waypoint that is accepted, that is, whose two partial
  distances are both below the direct distance and whose detour ratio is below 1.5.
\<close>

theorem recommend_returns_direct_and_waypoints:
  assumes v: "valid_catalog self"
      and o: "find_city_coordinates (cities_data self) origin = (Some olat, Some olng)"
      and d: "find_city_coordinates (cities_data self) destination = (Some dlat, Some dlng)"
      and nz: "olat \<noteq> 0" "olng \<noteq> 0" "dlat \<noteq> 0" "dlng \<noteq> 0"
  shows "\<exists>routes self'.
           recommend_routes self origin destination prefs None None = Inr (routes, self')
         \<and> length routes
             = 1 + min 3 (length (filter (waypoint_accepted olat olng dlat dlng) (cities_data self)))
         \<and> (\<exists>r\<in>set routes. rtype r = direct \<and> distance r = great_circle olat olng dlat dlng)
         \<and> ((\<exists>c\<in>set (cities_data self). waypoint_accepted olat olng dlat dlng c)
               \<longrightarrow> 1 < length routes)"
proof -
  define dr where "dr = (direct_route origin destination (great_circle olat olng dlat dlng))
                           \<lparr>score := score_value (direct_route origin destination
                                                    (great_circle olat olng dlat dlng)) prefs\<rparr>"
  from recommend_routes_valid[OF v o d nz, of prefs None None] obtain rs where
    rs: "create_routes (marked self olat olng dlat dlng) origin destination prefs
                 (take 3 (accepted_waypoints self olat olng dlat dlng)) = Inr rs" and
    r: "recommend_routes self origin destination prefs None None =
          Inr (rank_routes (dr # rs) None None, marked self olat olng dlat dlng)"
    unfolding dr_def by blast
  define n where "n = length (filter (waypoint_accepted olat olng dlat dlng) (cities_data self))"
  have lrs: "length rs = min 3 n"
    using create_routes_length[OF rs] by (simp add: length_accepted_waypoints n_def min.commute)
  have k: "rank_routes (dr # rs) None None = sort_desc score (dr # rs)"
    unfolding rank_routes_unconstrained
    by (simp add: max_routes_per_request_def length_sort_desc lrs)
  have len: "length (rank_routes (dr # rs) None None) = 1 + min 3 n"
    unfolding k by (simp add: length_sort_desc lrs)
  have mem: "dr \<in> set (rank_routes (dr # rs) None None)"
    unfolding k by (simp add: set_sort_desc)
  have drp: "rtype dr = direct \<and> distance dr = great_circle olat olng dlat dlng"
    by (simp add: dr_def direct_route_def)
  have more: "1 < length (rank_routes (dr # rs) None None)"
    if "\<exists>c\<in>set (cities_data self). waypoint_accepted olat olng dlat dlng c"
  proof -
    from that have "filter (waypoint_accepted olat olng dlat dlng) (cities_data self) \<noteq> []"
      by (simp add: filter_empty_conv)
    then have "0 < n" by (simp add: n_def)
    then show ?thesis unfolding len by simp
  qed
  show ?thesis
    using r len mem drp more unfolding n_def by blast
qed


lemma example_catalogs_valid:
  "valid_catalog (catalog_of [city_a, city_w, city_b])"
  "valid_catalog (catalog_of [city_a, city_b, city_x])"
  "valid_catalog (catalog_of [city_a, city_w, city_b, city_x])"
  "valid_catalog (catalog_of [city_a])"
  by (simp_all add: valid_catalog_def catalog_of_def example_valid)

lemma catalog_of_fields:
  "cities_data (catalog_of cs) = cs" "attractions_data (catalog_of cs) = []"
  by (simp_all add: catalog_of_def)

lemma score_value_no_preferences: "score_value r Map.empty = 0"
  by (simp add: score_value_def weight_def)

lemma rank_routes_single_unconstrained: "rank_routes [r] None None = [r]"
  by (simp add: rank_routes_unconstrained max_routes_per_request_def sort_desc_def)

lemma example_direct_distance: "great_circle 10 50 20 50 = km_per_degree * 10"
  by (simp add: great_circle_meridian)

text \<open>
  C2, as stated, fails. From (10, 50) to (20, 50) the city at (22, 50) has a detour ratio of
  1.4, below 1.5, yet lies 12 degrees from the origin, farther than the destination: it is
  not accepted, and the call returns the direct route alone.
\<close>

theorem far_waypoint_counterexample:
  "recommend_routes (catalog_of [city_a, city_b, city_x]) ''a'' ''b'' Map.empty None None
     = Inr ([(direct_route ''a'' ''b'' (km_per_degree * 10))\<lparr>score := 0\<rparr>],
            catalog_of [city_a, city_b, city_x])
   \<and> detour_ratio_of 10 50 20 50 city_x < 1.5
   \<and> 0 < km_per_degree * 10"
proof -
  have o: "find_city_coordinates (cities_data (catalog_of [city_a, city_b, city_x])) ''a''
             = (Some 10, Some 50)"
    by (simp only: catalog_of_fields example_lookup)
  have d: "find_city_coordinates (cities_data (catalog_of [city_a, city_b, city_x])) ''b''
             = (Some 20, Some 50)"
    by (simp only: catalog_of_fields example_lookup)
  from recommend_routes_valid[OF example_catalogs_valid(2) o d, of Map.empty None None]
  have "recommend_routes (catalog_of [city_a, city_b, city_x]) ''a'' ''b'' Map.empty None None
     = Inr ([(direct_route ''a'' ''b'' (km_per_degree * 10))\<lparr>score := 0\<rparr>],
            catalog_of [city_a, city_b, city_x])"
    by (auto simp: example_waypoints example_direct_distance score_value_no_preferences
                   rank_routes_single_unconstrained)
  moreover have "detour_ratio_of 10 50 20 50 city_x < 1.5"
    by (simp add: example_accepted)
  moreover have "0 < km_per_degree * 10"
    using km_per_degree_pos by simp
  ultimately show ?thesis by blast
qed

theorem recommend_returns_direct_and_waypoints_witness:
  "\<exists>routes self'.
      recommend_routes (catalog_of [city_a, city_w, city_b]) ''a'' ''b'' Map.empty None None
        = Inr (routes, self')
    \<and> length routes = 2"
proof -
  have o: "find_city_coordinates (cities_data (catalog_of [city_a, city_w, city_b])) ''a''
             = (Some 10, Some 50)"
    by (simp only: catalog_of_fields example_lookup)
  have d: "find_city_coordinates (cities_data (catalog_of [city_a, city_w, city_b])) ''b''
             = (Some 20, Some 50)"
    by (simp only: catalog_of_fields example_lookup)
  have n: "length (filter (waypoint_accepted 10 50 20 50)
                     (cities_data (catalog_of [city_a, city_w, city_b]))) = 1"
    by (simp add: catalog_of_fields example_accepted)
  from recommend_returns_direct_and_waypoints[OF example_catalogs_valid(1) o d, of Map.empty]
  show ?thesis unfolding n by auto
qed

subsection \<open>A catalog around the pole\<close>

lemma polar_cities:
  "name city_o = ''o''" "lat city_o = 10" "lng city_o = 50" "population city_o = None"
  "name city_d = ''d''" "lat city_d = 20" "lng city_d = - 130" "population city_d = None"
  "name city_f = ''f''" "lat city_f = - 60" "lng city_f = 50" "population city_f = None"
  "name city_p = ''p''" "lat city_p = 50" "lng city_p = 50" "population city_p = None"
  "name city_q = ''q''" "lat city_q = 80" "lng city_q = 50" "population city_q = None"
  "name city_r = ''r''" "lat city_r = 60" "lng city_r = - 130" "population city_r = None"
  "name city_s = ''s''" "lat city_s = 30" "lng city_s = 50" "population city_s = None"
  by (simp_all add: city_o_def city_d_def city_f_def city_p_def city_q_def city_r_def
        city_s_def city_at_fields)

lemma polar_names:
  "lower ''o'' = ''o''" "lower ''d'' = ''d''" "lower ''f'' = ''f''" "lower ''p'' = ''p''"
  "lower ''q'' = ''q''" "lower ''r'' = ''r''" "lower ''s'' = ''s''" "lower ''e'' = ''e''"
  by code_simp+

lemma polar_valid: "valid_catalog polar_catalog"
  by (simp add: valid_catalog_def polar_catalog_def catalog_of_def valid_city_def polar_cities)

lemma polar_lookup:
  "find_city_coordinates (cities_data polar_catalog) ''o'' = (Some 10, Some 50)"
  "find_city_coordinates (cities_data polar_catalog) ''d'' = (Some 20, Some (- 130))"
  by (simp_all add: polar_catalog_def catalog_of_fields polar_cities polar_names)

lemma polar_direct_distance: "great_circle 10 50 20 (- 130) = km_per_degree * 150"
  by (simp add: great_circle_over_pole)

lemma polar_accepted:
  "\<not> waypoint_accepted 10 50 20 (- 130) city_o"
  "\<not> waypoint_accepted 10 50 20 (- 130) city_d"
  "waypoint_accepted 10 50 20 (- 130) city_f"
  "waypoint_accepted 10 50 20 (- 130) city_p"
  "waypoint_accepted 10 50 20 (- 130) city_q"
  "waypoint_accepted 10 50 20 (- 130) city_r"
  "waypoint_accepted 10 50 20 (- 130) city_s"
  by (simp_all add: waypoint_accepted_def detour_ratio_of_def polar_cities
        great_circle_over_pole great_circle_meridian km_less km_ratio)

lemma km_per_degree_nonzero: "km_per_degree \<noteq> 0"
  using km_per_degree_pos by simp

lemma polar_ratios:
  "detour_ratio_of 10 50 20 (- 130) city_f = 14 / 10"
  "detour_ratio_of 10 50 20 (- 130) city_p = 1"
  "detour_ratio_of 10 50 20 (- 130) city_q = 1"
  "detour_ratio_of 10 50 20 (- 130) city_r = 1"
  "detour_ratio_of 10 50 20 (- 130) city_s = 1"
  by (simp_all add: detour_ratio_of_def polar_cities
        great_circle_over_pole great_circle_meridian km_per_degree_nonzero)

lemma polar_waypoints:
  "accepted_waypoints polar_catalog 10 50 20 (- 130)
     = [city_p\<lparr>detour_ratio := Some 1\<rparr>, city_q\<lparr>detour_ratio := Some 1\<rparr>,
        city_r\<lparr>detour_ratio := Some 1\<rparr>, city_s\<lparr>detour_ratio := Some 1\<rparr>,
        city_f\<lparr>detour_ratio := Some (14 / 10)\<rparr>]"
  by (simp add: accepted_waypoints_def polar_catalog_def catalog_of_def mark_city_def
        polar_accepted polar_ratios detour_key_def)

lemma detour_ratio_of_accepted:
  assumes "c \<in> set (accepted_waypoints self olat olng dlat dlng)"
  shows "detour_key c = detour_ratio_of olat olng dlat dlng c"
  using detour_key_accepted[OF assms] by (simp add: detour_key_def)

lemma accepted_waypoints_by_ratio:
  "accepted_waypoints self olat olng dlat dlng
     = sort_key (detour_ratio_of olat olng dlat dlng)
         (map (\<lambda>c. c\<lparr>detour_ratio := Some (detour_ratio_of olat olng dlat dlng c)\<rparr>)
            (filter (waypoint_accepted olat olng dlat dlng) (cities_data self)))"
proof -
  have m: "map (mark_city olat olng dlat dlng)
             (filter (waypoint_accepted olat olng dlat dlng) (cities_data self))
           = map (\<lambda>c. c\<lparr>detour_ratio := Some (detour_ratio_of olat olng dlat dlng c)\<rparr>)
               (filter (waypoint_accepted olat olng dlat dlng) (cities_data self))"
    by (rule map_cong) (simp_all add: mark_city_def)
  have "\<forall>c\<in>set (map (\<lambda>c. c\<lparr>detour_ratio := Some (detour_ratio_of olat olng dlat dlng c)\<rparr>)
                     (filter (waypoint_accepted olat olng dlat dlng) (cities_data self))).
          detour_key c = detour_ratio_of olat olng dlat dlng c"
    by (auto simp: detour_key_def detour_ratio_of_def)
  from sort_key_agree[OF this] show ?thesis
    unfolding accepted_waypoints_def m .
qed

lemma sorted_by_ratio:
  "sorted (map (detour_ratio_of olat olng dlat dlng) (accepted_waypoints self olat olng dlat dlng))"
  unfolding accepted_waypoints_by_ratio by (rule sorted_sort_key)

text \<open>
  C3. On a valid catalog in which origin and destination resolve,
  \<^verbatim>\<open>_find_intermediate_cities\<close> returns exactly the catalog entries whose two partial
  distances are below the direct distance and whose detour ratio is below 1.5, each
  carrying its detour ratio, stably sorted in ascending order of the detour ratio
  \<open>(dist(origin, L) + dist(L, destination)) / D\<close>; the candidates are the direct route
  followed by one route with a stop for each of the first three of them.
\<close>

theorem waypoints_accepted_sorted_first_three:
  assumes v: "valid_catalog self"
      and o: "find_city_coordinates (cities_data self) origin = (Some olat, Some olng)"
      and d: "find_city_coordinates (cities_data self) destination = (Some dlat, Some dlng)"
  shows "\<exists>ics rs self'.
           find_intermediate_cities self olat olng dlat dlng = Inr (ics, self')
         \<and> ics = sort_key (detour_ratio_of olat olng dlat dlng)
                   (map (\<lambda>c. c\<lparr>detour_ratio := Some (detour_ratio_of olat olng dlat dlng c)\<rparr>)
                      (filter (waypoint_accepted olat olng dlat dlng) (cities_data self)))
         \<and> (\<forall>c\<in>set (cities_data self).
               c\<lparr>detour_ratio := Some (detour_ratio_of olat olng dlat dlng c)\<rparr> \<in> set ics
               \<longleftrightarrow> waypoint_accepted olat olng dlat dlng c)
         \<and> set ics \<subseteq> (\<lambda>c. c\<lparr>detour_ratio := Some (detour_ratio_of olat olng dlat dlng c)\<rparr>)
                         ` set (cities_data self)
         \<and> (\<forall>c\<in>set ics. detour_ratio c = Some (detour_ratio_of olat olng dlat dlng c))
         \<and> sorted (map (detour_ratio_of olat olng dlat dlng) ics)
         \<and> sorted (map detour_key ics)
         \<and> candidate_routes self origin destination prefs olat olng dlat dlng
             = Inr ((direct_route origin destination (great_circle olat olng dlat dlng))
                      \<lparr>score := score_value (direct_route origin destination
                                               (great_circle olat olng dlat dlng)) prefs\<rparr> # rs,
                    self')
         \<and> map intermediate_city rs = map (\<lambda>c. Some (name c)) (take 3 ics)
         \<and> list_all (\<lambda>r. rtype r = with_stops) rs"
proof -
  define ics where "ics = accepted_waypoints self olat olng dlat dlng"
  have f: "find_intermediate_cities self olat olng dlat dlng
             = Inr (ics, marked self olat olng dlat dlng)"
    unfolding ics_def
    by (rule find_intermediate_cities_marked
               [OF resolved_lat[OF v o] resolved_lat[OF v d] valid_catalog_lat[OF v]])
  have e: "ics = sort_key (detour_ratio_of olat olng dlat dlng)
                   (map (\<lambda>c. c\<lparr>detour_ratio := Some (detour_ratio_of olat olng dlat dlng c)\<rparr>)
                      (filter (waypoint_accepted olat olng dlat dlng) (cities_data self)))"
    unfolding ics_def by (rule accepted_waypoints_by_ratio)
  have i: "\<forall>c\<in>set (cities_data self).
               c\<lparr>detour_ratio := Some (detour_ratio_of olat olng dlat dlng c)\<rparr> \<in> set ics
               \<longleftrightarrow> waypoint_accepted olat olng dlat dlng c"
    unfolding ics_def using accepted_iff_member by blast
  have s: "set ics \<subseteq> (\<lambda>c. c\<lparr>detour_ratio := Some (detour_ratio_of olat olng dlat dlng c)\<rparr>)
                         ` set (cities_data self)"
    unfolding ics_def set_accepted_waypoints by blast
  have k: "\<forall>c\<in>set ics. detour_ratio c = Some (detour_ratio_of olat olng dlat dlng c)"
    unfolding ics_def using detour_key_accepted by blast
  have sr: "sorted (map (detour_ratio_of olat olng dlat dlng) ics)"
    unfolding ics_def by (rule sorted_by_ratio)
  have so: "sorted (map detour_key ics)"
    unfolding ics_def by (rule sorted_accepted_waypoints)
  from candidate_routes_valid[OF v o d, of prefs] obtain rs where
    rs: "create_routes (marked self olat olng dlat dlng) origin destination prefs (take 3 ics) = Inr rs"
    and c: "candidate_routes self origin destination prefs olat olng dlat dlng
             = Inr ((direct_route origin destination (great_circle olat olng dlat dlng))
                      \<lparr>score := score_value (direct_route origin destination
                                               (great_circle olat olng dlat dlng)) prefs\<rparr> # rs,
                    marked self olat olng dlat dlng)"
    unfolding ics_def by blast
  from create_routes_props[OF rs]
  have m: "map intermediate_city rs = map (\<lambda>c. Some (name c)) (take 3 ics)"
    and t: "list_all (\<lambda>r. rtype r = with_stops) rs"
    by (simp_all add: list_all_iff)
  show ?thesis using f e i s k sr so c m t by blast
qed

text \<open>
  On the catalog around the pole five entries are accepted. The entry f, first of them in
  the catalog, has the largest detour ratio (1.4) and is sorted to the end; of the four
  entries with ratio 1, in catalog order, the first three get a route.
\<close>

theorem waypoints_accepted_sorted_first_three_witness:
  "\<exists>rs self'.
      find_intermediate_cities polar_catalog 10 50 20 (- 130)
        = Inr ([city_p\<lparr>detour_ratio := Some 1\<rparr>, city_q\<lparr>detour_ratio := Some 1\<rparr>,
                city_r\<lparr>detour_ratio := Some 1\<rparr>, city_s\<lparr>detour_ratio := Some 1\<rparr>,
                city_f\<lparr>detour_ratio := Some (14 / 10)\<rparr>], self')
    \<and> candidate_routes polar_catalog ''o'' ''d'' Map.empty 10 50 20 (- 130)
        = Inr ((direct_route ''o'' ''d'' (km_per_degree * 150))\<lparr>score := 0\<rparr> # rs, self')
    \<and> map intermediate_city rs = [Some ''p'', Some ''q'', Some ''r'']"
proof -
  from waypoints_accepted_sorted_first_three
         [OF polar_valid polar_lookup(1) polar_lookup(2), of Map.empty]
  obtain ics rs self' where
    f: "find_intermediate_cities polar_catalog 10 50 20 (- 130) = Inr (ics, self')" and
    e: "ics = sort_key (detour_ratio_of 10 50 20 (- 130))
                (map (\<lambda>c. c\<lparr>detour_ratio := Some (detour_ratio_of 10 50 20 (- 130) c)\<rparr>)
                   (filter (waypoint_accepted 10 50 20 (- 130)) (cities_data polar_catalog)))" and
    c: "candidate_routes polar_catalog ''o'' ''d'' Map.empty 10 50 20 (- 130)
          = Inr ((direct_route ''o'' ''d'' (great_circle 10 50 20 (- 130)))
                   \<lparr>score := score_value (direct_route ''o'' ''d'' (great_circle 10 50 20 (- 130)))
                               Map.empty\<rparr> # rs, self')" and
    m: "map intermediate_city rs = map (\<lambda>c. Some (name c)) (take 3 ics)"
    by blast
  have ics: "ics = [city_p\<lparr>detour_ratio := Some 1\<rparr>, city_q\<lparr>detour_ratio := Some 1\<rparr>,
                city_r\<lparr>detour_ratio := Some 1\<rparr>, city_s\<lparr>detour_ratio := Some 1\<rparr>,
                city_f\<lparr>detour_ratio := Some (14 / 10)\<rparr>]"
    unfolding e accepted_waypoints_by_ratio[symmetric] by (rule polar_waypoints)
  show ?thesis
    using f c m unfolding ics
    by (simp add: polar_direct_distance score_value_no_preferences polar_cities)
qed

section \<open>Zero-valued constraints on a call\<close>

lemma rank_routes_zero_zero:
  "rank_routes routes (Some 0) (Some 0) = take max_routes_per_request (sort_desc score routes)"
  "rank_routes routes (Some 0) None = take max_routes_per_request (sort_desc score routes)"
  "rank_routes routes None (Some 0) = take max_routes_per_request (sort_desc score routes)"
  by (simp_all add: rank_routes_def truthy_def truthy_int_def)

lemma recommend_routes_zero_constraints:
  assumes v: "valid_catalog self"
      and o: "find_city_coordinates (cities_data self) origin = (Some olat, Some olng)"
      and d: "find_city_coordinates (cities_data self) destination = (Some dlat, Some dlng)"
      and nz: "olat \<noteq> 0" "olng \<noteq> 0" "dlat \<noteq> 0" "dlng \<noteq> 0"
  shows "\<exists>returned self'.
           recommend_routes self origin destination prefs (Some 0) (Some 0) = Inr (returned, self')
         \<and> length returned
             = 1 + min 3 (length (filter (waypoint_accepted olat olng dlat dlng) (cities_data self)))
         \<and> (\<exists>r\<in>set returned. rtype r = direct
                \<and> cost r = great_circle olat olng dlat dlng * 0.5
                \<and> duration r = great_circle olat olng dlat dlng / 80)"
proof -
  define dr where "dr = (direct_route origin destination (great_circle olat olng dlat dlng))
                           \<lparr>score := score_value (direct_route origin destination
                                                    (great_circle olat olng dlat dlng)) prefs\<rparr>"
  from recommend_routes_valid[OF v o d nz, of prefs "Some 0" "Some 0"] obtain rs where
    rs: "create_routes (marked self olat olng dlat dlng) origin destination prefs
                 (take 3 (accepted_waypoints self olat olng dlat dlng)) = Inr rs" and
    r: "recommend_routes self origin destination prefs (Some 0) (Some 0) =
          Inr (rank_routes (dr # rs) (Some 0) (Some 0), marked self olat olng dlat dlng)"
    unfolding dr_def by blast
  define n where "n = length (filter (waypoint_accepted olat olng dlat dlng) (cities_data self))"
  have lrs: "length rs = min 3 n"
    using create_routes_length[OF rs] by (simp add: length_accepted_waypoints n_def min.commute)
  have k: "rank_routes (dr # rs) (Some 0) (Some 0) = sort_desc score (dr # rs)"
    unfolding rank_routes_zero_zero
    by (simp add: max_routes_per_request_def length_sort_desc lrs)
  have len: "length (rank_routes (dr # rs) (Some 0) (Some 0)) = 1 + min 3 n"
    unfolding k by (simp add: length_sort_desc lrs)
  have mem: "dr \<in> set (rank_routes (dr # rs) (Some 0) (Some 0))"
    unfolding k by (simp add: set_sort_desc)
  have drp: "rtype dr = direct \<and> cost dr = great_circle olat olng dlat dlng * 0.5
               \<and> duration dr = great_circle olat olng dlat dlng / 80"
    by (simp add: dr_def direct_route_def)
  show ?thesis
    using r len mem drp unfolding n_def by blast
qed

text \<open>
  C10. A budget of 0 or a duration of 0 days is falsy, so \<^verbatim>\<open>recommend_routes\<close> skips the
  corresponding filter: the call returns what it returns when the constraint is not
  supplied at all, and with both constraints 0 the ranker returns the first 5 of the
  sorted candidates, whatever they cost and however long they take. A call with budget 0
  and duration 0 whose origin and destination resolve to non-zero coordinates in a valid
  catalog so returns the direct route, with its cost of half the distance, and a route
  for each of the first three accepted waypoints.
\<close>

theorem zero_constraint_skips_filter:
  "recommend_routes self origin destination prefs (Some 0) duration_days
     = recommend_routes self origin destination prefs None duration_days
   \<and> recommend_routes self origin destination prefs budget (Some 0)
     = recommend_routes self origin destination prefs budget None
   \<and> rank_routes routes (Some 0) None = take max_routes_per_request (sort_desc score routes)
   \<and> rank_routes routes None (Some 0) = take max_routes_per_request (sort_desc score routes)
   \<and> rank_routes routes (Some 0) (Some 0) = take max_routes_per_request (sort_desc score routes)
   \<and> (length routes \<le> max_routes_per_request
        \<longrightarrow> mset (rank_routes routes (Some 0) (Some 0)) = mset routes)
   \<and> (valid_catalog self
        \<and> find_city_coordinates (cities_data self) origin = (Some olat, Some olng)
        \<and> find_city_coordinates (cities_data self) destination = (Some dlat, Some dlng)
        \<and> olat \<noteq> 0 \<and> olng \<noteq> 0 \<and> dlat \<noteq> 0 \<and> dlng \<noteq> 0
        \<longrightarrow> (\<exists>returned self'.
               recommend_routes self origin destination prefs (Some 0) (Some 0)
                 = Inr (returned, self')
             \<and> length returned
                 = 1 + min 3 (length (filter (waypoint_accepted olat olng dlat dlng)
                                        (cities_data self)))
             \<and> (\<exists>r\<in>set returned. rtype r = direct
                    \<and> cost r = great_circle olat olng dlat dlng * 0.5
                    \<and> duration r = great_circle olat olng dlat dlng / 80)))"
proof -
  have e: "recommend_routes self origin destination prefs (Some 0) duration_days
             = recommend_routes self origin destination prefs None duration_days
         \<and> recommend_routes self origin destination prefs budget (Some 0)
             = recommend_routes self origin destination prefs budget None"
    unfolding recommend_routes_def rank_routes_zero_budget rank_routes_zero_duration by simp
  have m: "mset (rank_routes routes (Some 0) (Some 0)) = mset routes"
    if "length routes \<le> max_routes_per_request"
    unfolding rank_routes_zero_zero using that by (simp add: length_sort_desc mset_sort_desc)
  show ?thesis
    using e m rank_routes_zero_zero[of routes] recommend_routes_zero_constraints[of self origin olat olng destination dlat dlng prefs]
    by blast
qed

text \<open>
  From (10, 50) to (20, 50) with budget 0 and duration 0 both candidates are returned,
  the direct one at its positive cost; and the ranker returns the candidates that cost
  150 and 300.
\<close>

theorem zero_constraint_skips_filter_witness:
  "(\<exists>returned self'.
       recommend_routes (catalog_of [city_a, city_w, city_b]) ''a'' ''b'' Map.empty (Some 0) (Some 0)
         = Inr (returned, self')
     \<and> length returned = 2
     \<and> (\<exists>r\<in>set returned. cost r = km_per_degree * 5 \<and> 0 < cost r))
   \<and> rank_routes [route_with 150 10 1, route_with 300 30 2] (Some 0) (Some 0)
       = [route_with 300 30 2, route_with 150 10 1]"
proof -
  have o: "find_city_coordinates (cities_data (catalog_of [city_a, city_w, city_b])) ''a''
             = (Some 10, Some 50)"
    by (simp only: catalog_of_fields example_lookup)
  have d: "find_city_coordinates (cities_data (catalog_of [city_a, city_w, city_b])) ''b''
             = (Some 20, Some 50)"
    by (simp only: catalog_of_fields example_lookup)
  have n: "length (filter (waypoint_accepted 10 50 20 50)
                     (cities_data (catalog_of [city_a, city_w, city_b]))) = 1"
    by (simp add: catalog_of_fields example_accepted)
  have nz: "(10::real) \<noteq> 0" "(50::real) \<noteq> 0" "(20::real) \<noteq> 0"
    by simp_all
  note t = zero_constraint_skips_filter
             [of "catalog_of [city_a, city_w, city_b]" "''a''" "''b''" Map.empty _ _
                 "[route_with 150 10 1, route_with 300 30 2]" 10 50 20 50]
  from t example_catalogs_valid(1) o d nz
  obtain returned self' where
    r: "recommend_routes (catalog_of [city_a, city_w, city_b]) ''a'' ''b'' Map.empty (Some 0) (Some 0)
          = Inr (returned, self')" and
    l: "length returned
          = 1 + min 3 (length (filter (waypoint_accepted 10 50 20 50)
                                 (cities_data (catalog_of [city_a, city_w, city_b]))))" and
    c: "\<exists>r\<in>set returned. rtype r = direct
          \<and> cost r = great_circle 10 50 20 50 * 0.5
          \<and> duration r = great_circle 10 50 20 50 / 80"
    by blast
  have l2: "length returned = 2" using l unfolding n by simp
  from c obtain r0 where
    r0: "r0 \<in> set returned" and cr: "cost r0 = great_circle 10 50 20 50 * 0.5"
    by blast
  have cv: "cost r0 = km_per_degree * 5"
    unfolding cr example_direct_distance by simp
  have cp: "0 < cost r0"
    unfolding cv using km_per_degree_pos by simp
  have c2: "\<exists>r\<in>set returned. cost r = km_per_degree * 5 \<and> 0 < cost r"
    using r0 cv cp by blast
  from t have "rank_routes [route_with 150 10 1, route_with 300 30 2] (Some 0) (Some 0)
                 = take max_routes_per_request
                     (sort_desc score [route_with 150 10 1, route_with 300 30 2])"
    by blast
  then have k: "rank_routes [route_with 150 10 1, route_with 300 30 2] (Some 0) (Some 0)
                  = [route_with 300 30 2, route_with 150 10 1]"
    by (simp add: sort_desc_def max_routes_per_request_def route_with_def direct_route_def)
  show ?thesis using r l2 c2 k by blast
qed

section \<open>Origin and destination at distance zero\<close>

lemma not_accepted_at_zero:
  assumes "great_circle olat olng dlat dlng = 0"
  shows "\<not> waypoint_accepted olat olng dlat dlng c"
  using great_circle_nonneg[of olat olng "lat c" "lng c"] assms
  by (simp add: waypoint_accepted_def)

lemma accepted_waypoints_at_zero:
  assumes "great_circle olat olng dlat dlng = 0"
  shows "accepted_waypoints self olat olng dlat dlng = []"
    and "marked self olat olng dlat dlng = self"
proof -
  show "accepted_waypoints self olat olng dlat dlng = []"
    by (simp add: accepted_waypoints_def not_accepted_at_zero[OF assms])
  have "map (mark_city olat olng dlat dlng) (cities_data self) = cities_data self"
    by (rule map_idI) (simp add: mark_city_def not_accepted_at_zero[OF assms])
  then show "marked self olat olng dlat dlng = self"
    by (simp add: marked_def)
qed

lemma rank_routes_free_route:
  assumes "cost r = 0" "duration r = 0"
  shows "rank_routes [r] budget duration_days =
           (if (\<exists>b. budget = Some b \<and> b < 0) \<or> (\<exists>n. duration_days = Some n \<and> n < 0)
            then [] else [r])"
proof -
  have w: "within_constraints budget duration_days r \<longleftrightarrow>
             \<not> ((\<exists>b. budget = Some b \<and> b < 0) \<or> (\<exists>n. duration_days = Some n \<and> n < 0))"
    by (cases budget; cases duration_days) (auto simp: within_constraints_def assms)
  show ?thesis
    unfolding rank_routes_eq
    by (simp add: sort_desc_def w max_routes_per_request_def)
qed

lemma recommend_routes_zero_coordinate:
  assumes "find_city_coordinates (cities_data self) origin = (Some olat, Some olng)"
      and "find_city_coordinates (cities_data self) destination = (Some dlat, Some dlng)"
      and "olat = 0 \<or> olng = 0 \<or> dlat = 0 \<or> dlng = 0"
  shows "recommend_routes self origin destination prefs budget duration_days = Inr ([], self)"
  using assms(3) by (auto simp: recommend_routes_def assms(1) assms(2) truthy_def)

lemma zero_distance_run:
  assumes v: "valid_catalog self"
      and o: "find_city_coordinates (cities_data self) origin = (Some olat, Some olng)"
      and d: "find_city_coordinates (cities_data self) destination = (Some dlat, Some dlng)"
      and z: "great_circle olat olng dlat dlng = 0"
  shows "find_intermediate_cities self olat olng dlat dlng = Inr ([], self)
       \<and> (\<forall>c\<in>set (cities_data self). detour_of olat olng dlat dlng c = Inr None)
       \<and> recommend_routes self origin destination prefs budget duration_days
           = Inr (if olat = 0 \<or> olng = 0 \<or> dlat = 0 \<or> dlng = 0
                     \<or> (\<exists>b. budget = Some b \<and> b < 0) \<or> (\<exists>n. duration_days = Some n \<and> n < 0)
                  then []
                  else [(direct_route origin destination 0)
                          \<lparr>score := score_value (direct_route origin destination 0) prefs\<rparr>],
                  self)
       \<and> distance (direct_route origin destination 0) = 0"
proof -
  have lo: "\<bar>olat\<bar> \<le> 90" by (rule resolved_lat[OF v o])
  have ld: "\<bar>dlat\<bar> \<le> 90" by (rule resolved_lat[OF v d])
  have f: "find_intermediate_cities self olat olng dlat dlng = Inr ([], self)"
    using find_intermediate_cities_marked[OF lo ld valid_catalog_lat[OF v], of olng dlng]
    by (simp add: accepted_waypoints_at_zero[OF z])
  have n: "\<forall>c\<in>set (cities_data self). detour_of olat olng dlat dlng c = Inr None"
  proof
    fix c assume "c \<in> set (cities_data self)"
    then have "\<bar>lat c\<bar> \<le> 90" using valid_catalog_lat[OF v] by blast
    from detour_of_valid[OF lo ld this, of olng dlng]
    show "detour_of olat olng dlat dlng c = Inr None"
      by (simp add: not_accepted_at_zero[OF z])
  qed
  have c0: "cost ((direct_route origin destination 0)
              \<lparr>score := score_value (direct_route origin destination 0) prefs\<rparr>) = 0"
    and d0: "duration ((direct_route origin destination 0)
              \<lparr>score := score_value (direct_route origin destination 0) prefs\<rparr>) = 0"
    by (simp_all add: direct_route_def)
  have r: "recommend_routes self origin destination prefs budget duration_days
           = Inr (if olat = 0 \<or> olng = 0 \<or> dlat = 0 \<or> dlng = 0
                     \<or> (\<exists>b. budget = Some b \<and> b < 0) \<or> (\<exists>n. duration_days = Some n \<and> n < 0)
                  then []
                  else [(direct_route origin destination 0)
                          \<lparr>score := score_value (direct_route origin destination 0) prefs\<rparr>],
                  self)"
  proof (cases "olat = 0 \<or> olng = 0 \<or> dlat = 0 \<or> dlng = 0")
    case True
    have "olat = 0 \<or> olng = 0 \<or> dlat = 0 \<or> dlng = 0
            \<or> (\<exists>b. budget = Some b \<and> b < 0) \<or> (\<exists>n. duration_days = Some n \<and> n < 0)"
      using True by blast
    then show ?thesis
      by (simp only: if_True recommend_routes_zero_coordinate[OF o d True])
  next
    case False
    then have nz: "olat \<noteq> 0" "olng \<noteq> 0" "dlat \<noteq> 0" "dlng \<noteq> 0" by simp_all
    from recommend_routes_valid[OF v o d nz, of prefs budget duration_days]
    show ?thesis
      unfolding accepted_waypoints_at_zero[OF z] z
      using False by (auto simp: rank_routes_free_route[OF c0 d0])
  qed
  have "distance (direct_route origin destination 0) = 0"
    by (simp add: direct_route_def)
  then show ?thesis using f n r by blast
qed

lemma equator_lookup:
  "find_city_coordinates (cities_data (catalog_of [city_e])) ''e'' = (Some 0, Some 50)"
  by (simp add: catalog_of_fields city_e_def city_at_fields polar_names)

text \<open>
  C9. For origin and destination at distance 0 whose coordinates are all non-zero the
  code accepts no waypoint, never reaches the division and returns no candidate other
  than the direct one of distance 0 (\<open>zero_distance_run\<close>). Where a coordinate is zero
  it fails by a slip: for a city on the equator, a route from the city to itself
  resolves, has direct distance 0, and the call returns no candidate at all, since
  \<^verbatim>\<open>not all([...])\<close> takes the latitude 0.0 for a missing one.
\<close>

theorem equator_round_trip_returns_nothing:
  "find_city_coordinates (cities_data (catalog_of [city_e])) ''e'' = (Some 0, Some 50)
   \<and> calculate_distance 0 50 0 50 = Inr 0
   \<and> recommend_routes (catalog_of [city_e]) ''e'' ''e'' Map.empty None None
       = Inr ([], catalog_of [city_e])"
  using recommend_routes_zero_coordinate[OF equator_lookup equator_lookup, of Map.empty None None]
  by (simp add: equator_lookup calculate_distance_same)

section \<open>The catalog after a call\<close>

lemma find_intermediate_cities_frame:
  assumes "find_intermediate_cities self olat olng dlat dlng = Inr (ics, self')"
  shows "attractions_data self' = attractions_data self
       \<and> map without_detour_ratio (cities_data self') = map without_detour_ratio (cities_data self)"
proof -
  from assms obtain cs' acc where
    l: "intermediate_loop olat olng dlat dlng (cities_data self) = Inr (cs', acc)" and
    s: "self' = self\<lparr>cities_data := cs'\<rparr>"
    unfolding find_intermediate_cities_def by (auto split: sum.splits if_splits)
  show ?thesis using intermediate_loop_frame[OF l] by (simp add: s)
qed

lemma candidate_routes_frame:
  assumes "candidate_routes self origin destination prefs olat olng dlat dlng = Inr (routes, self')"
  shows "attractions_data self' = attractions_data self
       \<and> map without_detour_ratio (cities_data self') = map without_detour_ratio (cities_data self)"
proof -
  from assms obtain ics where
    "find_intermediate_cities self olat olng dlat dlng = Inr (ics, self')"
    unfolding candidate_routes_def by (auto split: sum.splits)
  then show ?thesis by (rule find_intermediate_cities_frame)
qed

lemma recommend_routes_frame:
  assumes "recommend_routes self origin destination prefs budget duration_days = Inr (routes, self')"
  shows "attractions_data self' = attractions_data self
       \<and> map without_detour_ratio (cities_data self') = map without_detour_ratio (cities_data self)"
proof (cases "self' = self")
  case True
  then show ?thesis by simp
next
  case False
  with assms obtain olat olng dlat dlng rs where
    "candidate_routes self origin destination prefs olat olng dlat dlng = Inr (rs, self')"
    unfolding recommend_routes_def
    by (auto split: prod.splits if_splits option.splits sum.splits)
  then show ?thesis by (rule candidate_routes_frame)
qed

lemma detour_of_exact:
  assumes "detour_of olat olng dlat dlng c = Inr d"
  shows "d = (if waypoint_accepted olat olng dlat dlng c
              then Some (detour_ratio_of olat olng dlat dlng c) else None)"
proof -
  from assms obtain d1 d2 dd where
    d1: "calculate_distance olat olng (lat c) (lng c) = Inr d1" and
    d2: "calculate_distance (lat c) (lng c) dlat dlng = Inr d2" and
    dd: "calculate_distance olat olng dlat dlng = Inr dd"
    unfolding detour_of_def by (auto split: sum.splits)
  have g: "great_circle olat olng (lat c) (lng c) = d1"
          "great_circle (lat c) (lng c) dlat dlng = d2"
          "great_circle olat olng dlat dlng = dd"
    by (simp_all add: great_circle_def d1 d2 dd)
  show ?thesis
    using assms unfolding detour_of_def d1 d2 dd
    by (auto simp: waypoint_accepted_def detour_ratio_of_def g Let_def split: if_splits)
qed

lemma intermediate_loop_exact:
  "intermediate_loop olat olng dlat dlng cs = Inr (cs', acc) \<Longrightarrow>
     cs' = map (mark_city olat olng dlat dlng) cs
     \<and> acc = map (mark_city olat olng dlat dlng) (filter (waypoint_accepted olat olng dlat dlng) cs)"
proof (induction cs arbitrary: cs' acc)
  case Nil
  then show ?case by simp
next
  case (Cons c cs)
  from Cons.prems obtain d cs0 acc0 where
    d: "detour_of olat olng dlat dlng c = Inr d" and
    l: "intermediate_loop olat olng dlat dlng cs = Inr (cs0, acc0)" and
    r: "(case d of None \<Rightarrow> Inr (c # cs0, acc0)
         | Some ratio \<Rightarrow> Inr (c\<lparr>detour_ratio := Some ratio\<rparr> # cs0,
                              c\<lparr>detour_ratio := Some ratio\<rparr> # acc0))
        = (Inr (cs', acc) :: py_error + (city list \<times> city list))"
    by (auto split: sum.splits prod.splits)
  note e = detour_of_exact[OF d]
  from Cons.IH[OF l] have ih:
    "cs0 = map (mark_city olat olng dlat dlng) cs"
    "acc0 = map (mark_city olat olng dlat dlng) (filter (waypoint_accepted olat olng dlat dlng) cs)"
    by simp_all
  show ?case
    using r unfolding e ih by (auto simp: mark_city_def split: if_splits)
qed

lemma find_intermediate_cities_exact:
  assumes "find_intermediate_cities self olat olng dlat dlng = Inr (ics, self')"
  shows "self' = marked self olat olng dlat dlng"
    and "ics = accepted_waypoints self olat olng dlat dlng"
proof -
  from assms obtain cs' acc where
    l: "intermediate_loop olat olng dlat dlng (cities_data self) = Inr (cs', acc)" and
    s: "self' = self\<lparr>cities_data := cs'\<rparr>" and
    i: "ics = sort_key detour_key acc"
    unfolding find_intermediate_cities_def by (auto split: sum.splits if_splits)
  from intermediate_loop_exact[OF l] show "self' = marked self olat olng dlat dlng"
    by (simp add: s marked_def)
  from intermediate_loop_exact[OF l] show "ics = accepted_waypoints self olat olng dlat dlng"
    by (simp add: i accepted_waypoints_def)
qed

lemma candidate_routes_exact:
  assumes "candidate_routes self origin destination prefs olat olng dlat dlng = Inr (routes, self')"
  shows "self' = marked self olat olng dlat dlng"
proof -
  from assms obtain ics where
    "find_intermediate_cities self olat olng dlat dlng = Inr (ics, self')"
    unfolding candidate_routes_def by (auto split: sum.splits)
  then show ?thesis by (rule find_intermediate_cities_exact(1))
qed

lemma recommend_routes_post_state:
  assumes r: "recommend_routes self origin destination prefs budget duration_days = Inr (routes, self')"
  shows "(\<forall>olat olng dlat dlng.
            find_city_coordinates (cities_data self) origin = (Some olat, Some olng)
          \<and> find_city_coordinates (cities_data self) destination = (Some dlat, Some dlng)
          \<and> olat \<noteq> 0 \<and> olng \<noteq> 0 \<and> dlat \<noteq> 0 \<and> dlng \<noteq> 0
          \<longrightarrow> self' = marked self olat olng dlat dlng)
       \<and> (\<not> (\<exists>olat olng dlat dlng.
                 find_city_coordinates (cities_data self) origin = (Some olat, Some olng)
               \<and> find_city_coordinates (cities_data self) destination = (Some dlat, Some dlng)
               \<and> olat \<noteq> 0 \<and> olng \<noteq> 0 \<and> dlat \<noteq> 0 \<and> dlng \<noteq> 0)
            \<longrightarrow> self' = self)"
proof (intro conjI allI impI)
  fix olat olng dlat dlng
  assume a: "find_city_coordinates (cities_data self) origin = (Some olat, Some olng)
          \<and> find_city_coordinates (cities_data self) destination = (Some dlat, Some dlng)
          \<and> olat \<noteq> 0 \<and> olng \<noteq> 0 \<and> dlat \<noteq> 0 \<and> dlng \<noteq> 0"
  with r obtain rs where
    "candidate_routes self origin destination prefs olat olng dlat dlng = Inr (rs, self')"
    by (auto simp: recommend_routes_def truthy_def split: sum.splits)
  then show "self' = marked self olat olng dlat dlng" by (rule candidate_routes_exact)
next
  assume n: "\<not> (\<exists>olat olng dlat dlng.
                 find_city_coordinates (cities_data self) origin = (Some olat, Some olng)
               \<and> find_city_coordinates (cities_data self) destination = (Some dlat, Some dlng)
               \<and> olat \<noteq> 0 \<and> olng \<noteq> 0 \<and> dlat \<noteq> 0 \<and> dlng \<noteq> 0)"
  have "recommend_routes self origin destination prefs budget duration_days = Inr ([], self)"
    using n find_city_coordinates_cases[of "cities_data self" origin]
          find_city_coordinates_cases[of "cities_data self" destination]
    by (auto simp: recommend_routes_def truthy_def)
  with r show "self' = self" by simp
qed

text \<open>
  C8, amended. A call that returns leaves the attractions as they were. When origin and
  destination resolve to non-zero coordinates, the catalog after the call is the catalog
  before it with the detour ratio written into exactly the entries accepted as
  waypoints; every other entry, and every other key of an accepted entry, is as it was.
  Otherwise the call touches nothing.
\<close>

theorem catalog_changes_only_detour_ratio:
  assumes "recommend_routes self origin destination prefs budget duration_days = Inr (routes, self')"
  shows "attractions_data self' = attractions_data self
       \<and> (\<forall>olat olng dlat dlng.
              find_city_coordinates (cities_data self) origin = (Some olat, Some olng)
            \<and> find_city_coordinates (cities_data self) destination = (Some dlat, Some dlng)
            \<and> olat \<noteq> 0 \<and> olng \<noteq> 0 \<and> dlat \<noteq> 0 \<and> dlng \<noteq> 0
            \<longrightarrow> cities_data self'
                  = map (\<lambda>c. if waypoint_accepted olat olng dlat dlng c
                              then c\<lparr>detour_ratio := Some (detour_ratio_of olat olng dlat dlng c)\<rparr>
                              else c)
                      (cities_data self))
       \<and> (\<not> (\<exists>olat olng dlat dlng.
                 find_city_coordinates (cities_data self) origin = (Some olat, Some olng)
               \<and> find_city_coordinates (cities_data self) destination = (Some dlat, Some dlng)
               \<and> olat \<noteq> 0 \<and> olng \<noteq> 0 \<and> dlat \<noteq> 0 \<and> dlng \<noteq> 0)
            \<longrightarrow> cities_data self' = cities_data self)
       \<and> map without_detour_ratio (cities_data self') = map without_detour_ratio (cities_data self)"
proof -
  note p = recommend_routes_post_state[OF assms]
  have m: "cities_data (marked self olat olng dlat dlng)
             = map (\<lambda>c. if waypoint_accepted olat olng dlat dlng c
                         then c\<lparr>detour_ratio := Some (detour_ratio_of olat olng dlat dlng c)\<rparr>
                         else c)
                 (cities_data self)" for olat olng dlat dlng
    by (simp add: marked_def mark_city_def)
  have a: "\<forall>olat olng dlat dlng.
              find_city_coordinates (cities_data self) origin = (Some olat, Some olng)
            \<and> find_city_coordinates (cities_data self) destination = (Some dlat, Some dlng)
            \<and> olat \<noteq> 0 \<and> olng \<noteq> 0 \<and> dlat \<noteq> 0 \<and> dlng \<noteq> 0
            \<longrightarrow> cities_data self'
                  = map (\<lambda>c. if waypoint_accepted olat olng dlat dlng c
                              then c\<lparr>detour_ratio := Some (detour_ratio_of olat olng dlat dlng c)\<rparr>
                              else c)
                      (cities_data self)"
  proof (intro allI impI)
    fix olat olng dlat dlng
    assume h: "find_city_coordinates (cities_data self) origin = (Some olat, Some olng)
            \<and> find_city_coordinates (cities_data self) destination = (Some dlat, Some dlng)
            \<and> olat \<noteq> 0 \<and> olng \<noteq> 0 \<and> dlat \<noteq> 0 \<and> dlng \<noteq> 0"
    from p h have "self' = marked self olat olng dlat dlng" by blast
    then show "cities_data self'
                  = map (\<lambda>c. if waypoint_accepted olat olng dlat dlng c
                              then c\<lparr>detour_ratio := Some (detour_ratio_of olat olng dlat dlng c)\<rparr>
                              else c)
                      (cities_data self)"
      by (simp only: m)
  qed
  have b: "\<not> (\<exists>olat olng dlat dlng.
                 find_city_coordinates (cities_data self) origin = (Some olat, Some olng)
               \<and> find_city_coordinates (cities_data self) destination = (Some dlat, Some dlng)
               \<and> olat \<noteq> 0 \<and> olng \<noteq> 0 \<and> dlat \<noteq> 0 \<and> dlng \<noteq> 0)
            \<longrightarrow> cities_data self' = cities_data self"
    using p by blast
  show ?thesis using recommend_routes_frame[OF assms] a b by blast
qed

lemma example_run:
  "\<exists>rs. recommend_routes (catalog_of [city_a, city_w, city_b]) ''a'' ''b'' Map.empty None None
           = Inr (rs, catalog_of [city_a, city_w\<lparr>detour_ratio := Some 1\<rparr>, city_b])"
proof -
  have o: "find_city_coordinates (cities_data (catalog_of [city_a, city_w, city_b])) ''a''
             = (Some 10, Some 50)"
    by (simp only: catalog_of_fields example_lookup)
  have d: "find_city_coordinates (cities_data (catalog_of [city_a, city_w, city_b])) ''b''
             = (Some 20, Some 50)"
    by (simp only: catalog_of_fields example_lookup)
  from recommend_routes_valid[OF example_catalogs_valid(1) o d, of Map.empty None None]
  show ?thesis by (auto simp: example_waypoints)
qed

text \<open>
  C8, as stated, fails: after a call from (10, 50) to (20, 50) the catalog entry at (15, 50)
  carries a \<^verbatim>\<open>detour_ratio\<close> of 1 that it did not have before.
\<close>

theorem catalog_mutated_counterexample:
  "map_sum id snd
     (recommend_routes (catalog_of [city_a, city_w, city_b]) ''a'' ''b'' Map.empty None None)
     = Inr (catalog_of [city_a, city_w\<lparr>detour_ratio := Some 1\<rparr>, city_b])
   \<and> detour_ratio city_w = None"
  using example_run by (auto simp: city_w_def city_at_fields)

text \<open>
  From (10, 50) to (20, 50): the entry at (15, 50) is accepted and gets its ratio; origin,
  destination and the rejected entry at (22, 50) are as they were.
\<close>

theorem catalog_frame_witness:
  "\<exists>rs self'.
      recommend_routes (catalog_of [city_a, city_w, city_b, city_x]) ''a'' ''b'' Map.empty None None
        = Inr (rs, self')
    \<and> cities_data self' = [city_a, city_w\<lparr>detour_ratio := Some 1\<rparr>, city_b, city_x]"
proof -
  have o: "find_city_coordinates (cities_data (catalog_of [city_a, city_w, city_b, city_x])) ''a''
             = (Some 10, Some 50)"
    by (simp add: catalog_of_fields example_cities lower_examples)
  have d: "find_city_coordinates (cities_data (catalog_of [city_a, city_w, city_b, city_x])) ''b''
             = (Some 20, Some 50)"
    by (simp add: catalog_of_fields example_cities lower_examples)
  have nz: "(10::real) \<noteq> 0" "(50::real) \<noteq> 0" "(20::real) \<noteq> 0"
    by simp_all
  from recommend_routes_valid[OF example_catalogs_valid(3) o d nz(1) nz(2) nz(3) nz(2),
         of Map.empty None None]
  obtain rs self' where
    r: "recommend_routes (catalog_of [city_a, city_w, city_b, city_x]) ''a'' ''b'' Map.empty None None
          = Inr (rs, self')"
    by blast
  from catalog_changes_only_detour_ratio[OF r] o d
  have "cities_data self'
          = map (\<lambda>c. if waypoint_accepted 10 50 20 50 c
                      then c\<lparr>detour_ratio := Some (detour_ratio_of 10 50 20 50 c)\<rparr> else c)
              (cities_data (catalog_of [city_a, city_w, city_b, city_x]))"
    by simp
  then have "cities_data self' = [city_a, city_w\<lparr>detour_ratio := Some 1\<rparr>, city_b, city_x]"
    by (simp add: catalog_of_fields example_accepted)
  with r show ?thesis by blast
qed

section \<open>Score bounds of the simple recommender\<close>

lemma set_rank_routes: "set (rank_routes routes budget duration_days) \<subseteq> set routes"
  unfolding rank_routes_eq
  by (auto simp: set_sort_desc dest: in_set_takeD)

lemma create_routes_scores:
  assumes rs: "create_routes self origin destination prefs cs = Inr rs"
      and v: "list_all valid_city cs"
      and r: "r \<in> set rs"
  shows "score r = score_value r prefs \<and> 0 \<le> distance r \<and> 0 \<le> cost r \<and> 0 \<le> route_population r"
proof -
  from create_routes_props[OF rs] have
    a: "list_all (\<lambda>r. rtype r = with_stops \<and> 0 \<le> distance r \<and> 0 \<le> cost r
                   \<and> get_route_score r prefs = Inr (score r)) rs" and
    p: "map route_population rs = map (\<lambda>c. case population c of None \<Rightarrow> 0 | Some p \<Rightarrow> p) cs"
    by simp_all
  from a r have d: "0 \<le> distance r" and c: "0 \<le> cost r"
    and g: "get_route_score r prefs = Inr (score r)"
    by (simp_all add: list_all_iff)
  have "\<forall>x\<in>set (map (\<lambda>c. case population c of None \<Rightarrow> 0 | Some p \<Rightarrow> p) cs). 0 \<le> x"
    using v by (auto simp: list_all_iff valid_city_def split: option.splits)
  then have "\<forall>x\<in>set (map route_population rs). 0 \<le> x" unfolding p .
  then have q: "0 \<le> route_population r" using r by simp
  from get_route_score_total[OF d c q, of prefs] g have "score r = score_value r prefs" by simp
  then show ?thesis using d c q by simp
qed

lemma simple_scores_bounded:
  assumes v: "valid_catalog self"
      and w: "0 \<le> weight prefs ''fastest''" "0 \<le> weight prefs ''cheapest''"
             "0 \<le> weight prefs ''scenic''" "0 \<le> weight prefs ''quiet''"
      and t: "total_weight prefs \<le> 5"
  shows "\<exists>routes self'.
           recommend_routes self origin destination prefs budget duration_days = Inr (routes, self')
         \<and> (\<forall>r\<in>set routes. 0 \<le> score r \<and> score r \<le> 5)"
proof (cases "\<exists>olat olng dlat dlng.
                find_city_coordinates (cities_data self) origin = (Some olat, Some olng)
              \<and> find_city_coordinates (cities_data self) destination = (Some dlat, Some dlng)
              \<and> olat \<noteq> 0 \<and> olng \<noteq> 0 \<and> dlat \<noteq> 0 \<and> dlng \<noteq> 0")
  case False
  have "recommend_routes self origin destination prefs budget duration_days = Inr ([], self)"
    using False find_city_coordinates_cases[of "cities_data self" origin]
          find_city_coordinates_cases[of "cities_data self" destination]
    by (auto simp: recommend_routes_def truthy_def)
  then show ?thesis by simp
next
  case True
  then obtain olat olng dlat dlng where
    o: "find_city_coordinates (cities_data self) origin = (Some olat, Some olng)" and
    d: "find_city_coordinates (cities_data self) destination = (Some dlat, Some dlng)" and
    nz: "olat \<noteq> 0" "olng \<noteq> 0" "dlat \<noteq> 0" "dlng \<noteq> 0"
    by blast
  define dr where "dr = (direct_route origin destination (great_circle olat olng dlat dlng))
                           \<lparr>score := score_value (direct_route origin destination
                                                    (great_circle olat olng dlat dlng)) prefs\<rparr>"
  from recommend_routes_valid[OF v o d nz, of prefs budget duration_days] obtain rs where
    rs: "create_routes (marked self olat olng dlat dlng) origin destination prefs
                 (take 3 (accepted_waypoints self olat olng dlat dlng)) = Inr rs" and
    r: "recommend_routes self origin destination prefs budget duration_days =
          Inr (rank_routes (dr # rs) budget duration_days, marked self olat olng dlat dlng)"
    unfolding dr_def by blast
  have vs: "list_all valid_city (take 3 (accepted_waypoints self olat olng dlat dlng))"
    by (rule list_all_take[OF accepted_waypoints_valid[OF v]])
  have b: "0 \<le> score x \<and> score x \<le> 5" if x: "x \<in> set (dr # rs)" for x
  proof (cases "x = dr")
    case True
    have g: "0 \<le> great_circle olat olng dlat dlng" by (rule great_circle_nonneg)
    have sv: "score dr = score_value (direct_route origin destination (great_circle olat olng dlat dlng)) prefs"
      by (simp add: dr_def)
    have "0 \<le> score dr \<and> score dr \<le> total_weight prefs"
      unfolding sv
      by (intro conjI score_value_bounds w) (use g in \<open>simp_all add: direct_route_def\<close>)
    then show ?thesis using t True by simp
  next
    case False
    then have "x \<in> set rs" using x by simp
    from create_routes_scores[OF rs vs this]
    have sv: "score x = score_value x prefs" and n: "0 \<le> distance x" "0 \<le> cost x" "0 \<le> route_population x"
      by simp_all
    have "0 \<le> score x \<and> score x \<le> total_weight prefs"
      unfolding sv by (intro conjI score_value_bounds w n)
    then show ?thesis using t by simp
  qed
  have "\<forall>x\<in>set (rank_routes (dr # rs) budget duration_days). 0 \<le> score x \<and> score x \<le> 5"
    using b set_rank_routes[of "dr # rs" budget duration_days] by blast
  then show ?thesis using r by blast
qed

lemma big_weight_run:
  "recommend_routes (catalog_of [city_a]) ''a'' ''a'' [''fastest'' \<mapsto> 10] None None
     = Inr ([(direct_route ''a'' ''a'' 0)\<lparr>score := 10\<rparr>], catalog_of [city_a])"
proof -
  have o: "find_city_coordinates (cities_data (catalog_of [city_a])) ''a'' = (Some 10, Some 50)"
    by (simp only: catalog_of_fields example_lookup)
  have z: "great_circle 10 50 10 50 = 0"
    by (rule great_circle_same)
  have s: "score_value (direct_route ''a'' ''a'' 0) [''fastest'' \<mapsto> 10] = 10"
    by (simp add: score_value_def weight_def direct_route_def)
  from zero_distance_run
         [OF example_catalogs_valid(4) o o z, of "[''fastest'' \<mapsto> 10]" None None]
  show ?thesis by (simp add: s)
qed


section \<open>The advanced score\<close>

lemma get_ml_score_bounds: "0 \<le> get_ml_score self r prefs \<and> get_ml_score self r prefs \<le> 5"
  by (simp add: get_ml_score_def split: option.splits sum.splits)

lemma get_seasonal_adjustment_pos: "0 < get_seasonal_adjustment self r"
  by (simp add: get_seasonal_adjustment_def get_current_season_def load_seasonal_data_def Let_def)

lemma apply_user_preferences_pos: "0 < apply_user_preferences r prefs"
  by (simp add: apply_user_preferences_def Let_def)

lemma calculate_cost_score_pos: "0 < calculate_cost_score c tier"
  by (simp add: calculate_cost_score_def Let_def)

lemma calculate_cultural_score_nonneg:
  assumes "calculate_cultural_score r prefs = Inr c"
      and "\<forall>seg\<in>set (adv_segments r). 0 \<le> cultural_significance seg"
  shows "0 \<le> c"
proof -
  have "0 \<le> sum_list (map (\<lambda>segment. cultural_significance segment
                                + (if cultural_interests prefs \<noteq> [] then 0.5 else 0))
                            (adv_segments r))"
    by (rule sum_list_nonneg) (use assms(2) in auto)
  then show ?thesis
    using assms(1) by (auto simp: calculate_cultural_score_def Let_def split: if_splits)
qed

lemma calculate_scenic_score_nonneg:
  assumes "calculate_scenic_score r = Inr c"
      and "\<forall>seg\<in>set (adv_segments r). 0 \<le> scenic_rating seg"
  shows "0 \<le> c"
proof -
  have "0 \<le> sum_list (map scenic_rating (adv_segments r))"
    by (rule sum_list_nonneg) (use assms(2) in auto)
  then show ?thesis
    using assms(1) by (auto simp: calculate_scenic_score_def Let_def split: if_splits)
qed

lemma rule_score_nonneg:
  assumes "rule_score self r prefs = Inr b"
      and "\<forall>seg\<in>set (adv_segments r). 0 \<le> cultural_significance seg \<and> 0 \<le> scenic_rating seg"
  shows "0 \<le> b"
proof -
  from assms(1) obtain cu sc where
    cu: "calculate_cultural_score r prefs = Inr cu" and
    sc: "calculate_scenic_score r = Inr sc" and
    b: "b = (0.0 + max 0 (5.0 - total_distance r / 100) * 0.2
                 + max 0 (5.0 - total_duration r / 2) * 0.2
                 + calculate_cost_score (total_cost r) (budget_range prefs) * 0.25
                 + cu * 0.2 + sc * 0.15)
            * get_seasonal_adjustment self r * apply_user_preferences r prefs"
    unfolding rule_score_def Let_def by (auto split: sum.splits)
  have c0: "0 \<le> cu" by (rule calculate_cultural_score_nonneg[OF cu]) (use assms(2) in simp)
  have s0: "0 \<le> sc" by (rule calculate_scenic_score_nonneg[OF sc]) (use assms(2) in simp)
  have "0 \<le> 0.0 + max 0 (5.0 - total_distance r / 100) * 0.2
                 + max 0 (5.0 - total_duration r / 2) * 0.2
                 + calculate_cost_score (total_cost r) (budget_range prefs) * 0.25
                 + cu * 0.2 + sc * 0.15"
    using c0 s0 calculate_cost_score_pos[of "total_cost r" "budget_range prefs"] by simp
  then show ?thesis
    unfolding b
    using get_seasonal_adjustment_pos[of self r] apply_user_preferences_pos[of r prefs]
    by (intro mult_nonneg_nonneg) simp_all
qed

lemma calculate_route_score_le_5: "calculate_route_score self r prefs \<le> 5"
  by (simp add: calculate_route_score_def Let_def split: sum.splits)

lemma calculate_route_score_nonneg:
  assumes "\<forall>seg\<in>set (adv_segments r). 0 \<le> cultural_significance seg \<and> 0 \<le> scenic_rating seg"
  shows "0 \<le> calculate_route_score self r prefs"
proof (cases "rule_score self r prefs")
  case (Inl e)
  then show ?thesis by (simp add: calculate_route_score_def)
next
  case (Inr b)
  have b: "0 \<le> b" by (rule rule_score_nonneg[OF Inr assms])
  have m: "0 \<le> get_ml_score self r prefs" using get_ml_score_bounds by blast
  show ?thesis
    using b m by (simp add: calculate_route_score_def Inr Let_def split: option.splits)
qed

lemma make_segments_members:
  "make_segments self rows = Inr segs \<Longrightarrow> seg \<in> set segs
     \<Longrightarrow> \<exists>row\<in>set rows. make_segment self row = Inr seg"
proof (induction rows arbitrary: segs)
  case Nil
  then show ?case by simp
next
  case (Cons row rows)
  then show ?case by (auto split: sum.splits)
qed

lemma get_route_segments_members:
  assumes "seg \<in> set (get_route_segments self constraints)"
  shows "\<exists>rows row. db self = Inr rows \<and> row \<in> set rows
           \<and> query_where (origin_city_id constraints) (destination_city_id constraints)
                (avoid_cities constraints) row
           \<and> make_segment self row = Inr seg"
proof (cases "db self")
  case (Inl e)
  with assms show ?thesis by (simp add: get_route_segments_def db_execute_def)
next
  case (Inr rows)
  show ?thesis
  proof (cases "make_segments self (filter (query_where (origin_city_id constraints)
            (destination_city_id constraints) (avoid_cities constraints)) rows)")
    case (Inl e)
    with assms Inr show ?thesis by (simp add: get_route_segments_def db_execute_def)
  next
    case m: (Inr segs)
    with assms Inr have "seg \<in> set segs" by (simp add: get_route_segments_def db_execute_def)
    from make_segments_members[OF m this] show ?thesis using Inr by auto
  qed
qed

lemma add_weight_nonneg:
  "add_weight flag key s = Inr s' \<Longrightarrow> 0 \<le> s \<Longrightarrow> 0 \<le> s'"
  by (auto simp: add_weight_def cultural_weight_def load_cultural_weights_def
           split: if_splits sum.splits option.splits)

lemma calculate_cultural_significance_nonneg:
  assumes "calculate_cultural_significance row = Inr cs"
  shows "0 \<le> cs"
proof -
  from assms obtain s1 s2 s3 where
    a: "add_weight (row_unesco_heritage row) ''unesco_heritage'' 0 = Inr s1"
       "add_weight (row_historical_period row) ''historical'' s1 = Inr s2"
       "add_weight (row_religious_significance row) ''religious'' s2 = Inr s3" and
    c: "cs = min s3 5"
    unfolding calculate_cultural_significance_def by (auto split: sum.splits)
  have "0 \<le> s1" by (rule add_weight_nonneg[OF a(1)]) simp
  then have "0 \<le> s2" by (rule add_weight_nonneg[OF a(2)])
  then have "0 \<le> s3" by (rule add_weight_nonneg[OF a(3)])
  then show ?thesis by (simp add: c)
qed

lemma make_segment_fields:
  assumes "make_segment self row = Inr seg"
  shows "seg_origin_city_id seg = row_origin_city_id row"
    and "seg_destination_city_id seg = row_destination_city_id row"
    and "scenic_rating seg = row_scenic_rating row"
    and "0 \<le> cultural_significance seg"
  using assms calculate_cultural_significance_nonneg[of row]
  by (auto simp: make_segment_def split: sum.splits)

lemma combination_segments:
  assumes "r \<in> set (generate_route_combinations segs constraints)"
  shows "set (adv_segments r) \<subseteq> set segs"
  using assms by (auto simp: generate_route_combinations_def)

lemma adv_recommend_routes_members:
  assumes "r \<in> set (adv_recommend_routes self prefs constraints n)"
  shows "\<exists>r0\<in>set (generate_route_combinations (get_route_segments self constraints) constraints).
           r = r0\<lparr>adv_score := calculate_route_score self r0 prefs\<rparr>"
  using assms
  by (auto simp: adv_recommend_routes_def Let_def set_sort_desc dest!: in_set_takeD)


section \<open>The advanced recommender on the example table\<close>

lemma winter_fields:
  "db (winter_recommender rows model) = Inr rows"
  "ml_model (winter_recommender rows model) = model"
  "current_month (winter_recommender rows model) = 1"
  by (simp_all add: winter_recommender_def)

lemma winter_adjustment: "get_seasonal_adjustment (winter_recommender rows model) r = 0.8"
  by (simp add: get_seasonal_adjustment_def get_current_season_def load_seasonal_data_def
        winter_fields Let_def)

lemma example_segments:
  "make_segment (winter_recommender rows model) (row_of a b) = Inr (segment_of a b)"
  by (simp add: make_segment_def calculate_cultural_significance_def add_weight_def row_of_def
        segment_of_def get_seasonal_factors_def get_current_season_def load_seasonal_data_def
        winter_fields Let_def)

lemma example_rule_scores:
  "rule_score (winter_recommender rows model) direct_candidate standard_traveller = Inr 1"
  "rule_score (winter_recommender rows model) (waypoint_candidate w) standard_traveller = Inr 1"
  by (simp_all add: rule_score_def calculate_cultural_score_def calculate_scenic_score_def
        calculate_cost_score_def apply_user_preferences_def winter_adjustment
        direct_candidate_def waypoint_candidate_def standard_traveller_def segment_of_def Let_def)

lemma example_sub_scores:
  "calculate_scenic_score direct_candidate = Inr 0"
  "calculate_cultural_score direct_candidate standard_traveller = Inr 0"
  by (simp_all add: calculate_cultural_score_def calculate_scenic_score_def
        direct_candidate_def standard_traveller_def segment_of_def Let_def)

lemma example_score_failing_model:
  "calculate_route_score (winter_recommender rows (Some failing_model)) direct_candidate standard_traveller = 16 / 10"
  by (simp add: calculate_route_score_def example_rule_scores get_ml_score_def winter_fields
        example_sub_scores failing_model_def)

lemma example_score_constant_model:
  "calculate_route_score (winter_recommender rows (Some constant_model)) direct_candidate standard_traveller = 19 / 10"
  by (simp add: calculate_route_score_def example_rule_scores get_ml_score_def winter_fields
        example_sub_scores constant_model_def)

lemma example_score_no_model:
  "calculate_route_score (winter_recommender rows None) direct_candidate standard_traveller = 1"
  by (simp add: calculate_route_score_def example_rule_scores get_ml_score_def winter_fields
        example_sub_scores)





section \<open>Waypoints and the avoid-set\<close>






section \<open>Scores of returned candidates\<close>

lemma adv_scores_le_5:
  assumes "r \<in> set (adv_recommend_routes self prefs constraints n)"
  shows "adv_score r \<le> 5"
proof -
  from adv_recommend_routes_members[OF assms] obtain r0 where
    "r = r0\<lparr>adv_score := calculate_route_score self r0 prefs\<rparr>" by blast
  then show ?thesis using calculate_route_score_le_5[of self r0 prefs] by simp
qed

lemma adv_scores_nonneg:
  assumes r: "r \<in> set (adv_recommend_routes self prefs constraints n)"
      and s: "\<forall>rows. db self = Inr rows \<longrightarrow> list_all (\<lambda>row. 0 \<le> row_scenic_rating row) rows"
  shows "0 \<le> adv_score r"
proof -
  from adv_recommend_routes_members[OF r] obtain r0 where
    r0: "r0 \<in> set (generate_route_combinations (get_route_segments self constraints) constraints)"
    and e: "r = r0\<lparr>adv_score := calculate_route_score self r0 prefs\<rparr>"
    by blast
  have "\<forall>seg\<in>set (adv_segments r0). 0 \<le> cultural_significance seg \<and> 0 \<le> scenic_rating seg"
  proof
    fix seg assume "seg \<in> set (adv_segments r0)"
    then have "seg \<in> set (get_route_segments self constraints)"
      using combination_segments[OF r0] by blast
    from get_route_segments_members[OF this] obtain rows row where
      rows: "db self = Inr rows" and row: "row \<in> set rows" and
      m: "make_segment self row = Inr seg"
      by blast
    from s rows row have "0 \<le> row_scenic_rating row" by (simp add: list_all_iff)
    then show "0 \<le> cultural_significance seg \<and> 0 \<le> scenic_rating seg"
      using make_segment_fields[OF m] by simp
  qed
  from calculate_route_score_nonneg[OF this, of self prefs] show ?thesis by (simp add: e)
qed

text \<open>
  C1, amended. The simple recommender does not normalize the weights: on a valid catalog,
  when the four weights are non-negative and sum to at most 5, every returned candidate's
  score lies in [0, 5]. Every candidate the advanced recommender returns has a score of at
  most 5, and of at least 0 when no scenic rating in the segment table is negative.
\<close>

theorem scores_bounded:
  "((valid_catalog self
      \<and> 0 \<le> weight prefs ''fastest'' \<and> 0 \<le> weight prefs ''cheapest''
      \<and> 0 \<le> weight prefs ''scenic'' \<and> 0 \<le> weight prefs ''quiet''
      \<and> total_weight prefs \<le> 5)
     \<longrightarrow> (\<exists>routes self'.
            recommend_routes self origin destination prefs budget duration_days = Inr (routes, self')
          \<and> (\<forall>r\<in>set routes. 0 \<le> score r \<and> score r \<le> 5)))
   \<and> (\<forall>r\<in>set (adv_recommend_routes aself uprefs constraints n). adv_score r \<le> 5)
   \<and> ((\<forall>rows. db aself = Inr rows \<longrightarrow> list_all (\<lambda>row. 0 \<le> row_scenic_rating row) rows)
        \<longrightarrow> (\<forall>r\<in>set (adv_recommend_routes aself uprefs constraints n). 0 \<le> adv_score r))"
  using simple_scores_bounded[of self prefs origin destination budget duration_days]
        adv_scores_le_5[of _ aself uprefs constraints n]
        adv_scores_nonneg[of _ aself uprefs constraints n]
  by blast

text \<open>
  C1, as stated, fails: with the weight vector \<open>{fastest: 10}\<close> the route from a city to
  itself is returned with score 10.
\<close>

theorem score_above_five_counterexample:
  "recommend_routes (catalog_of [city_a]) ''a'' ''a'' [''fastest'' \<mapsto> 10] None None
     = Inr ([(direct_route ''a'' ''a'' 0)\<lparr>score := 10\<rparr>], catalog_of [city_a])
   \<and> \<not> score ((direct_route ''a'' ''a'' 0)\<lparr>score := 10\<rparr>) \<le> 5"
  using big_weight_run by simp

theorem scores_bounded_witness:
  "(\<exists>routes self'.
       recommend_routes (catalog_of [city_a, city_w, city_b]) ''a'' ''b''
         default_route_preferences None None = Inr (routes, self')
     \<and> list_all (\<lambda>r. 0 \<le> score r \<and> score r \<le> 5) routes)
   \<and> list_all (\<lambda>r. 0 \<le> adv_score r \<and> adv_score r \<le> 5)
        (adv_recommend_routes
           (winter_recommender [row_of 1 2, row_of 1 3, row_of 3 2, row_of 1 4, row_of 4 2] None)
           standard_traveller (from_1_to_2 [4]) 5)"
proof -
  let ?aself = "winter_recommender [row_of 1 2, row_of 1 3, row_of 3 2, row_of 1 4, row_of 4 2] None"
  have w: "0 \<le> weight default_route_preferences ''fastest''"
          "0 \<le> weight default_route_preferences ''cheapest''"
          "0 \<le> weight default_route_preferences ''scenic''"
          "0 \<le> weight default_route_preferences ''quiet''"
          "total_weight default_route_preferences \<le> 5"
    by (simp_all add: total_weight_def weight_def default_route_preferences_def)
  have h: "\<forall>rows. db ?aself = Inr rows \<longrightarrow> list_all (\<lambda>row. 0 \<le> row_scenic_rating row) rows"
    by (simp add: winter_fields row_of_def)
  from scores_bounded[of "catalog_of [city_a, city_w, city_b]" default_route_preferences
             "''a''" "''b''" None None ?aself standard_traveller "from_1_to_2 [4]" 5]
       example_catalogs_valid(1) w h
  show ?thesis unfolding list_all_iff by blast
qed


section \<open>Blending the learned score\<close>

lemma rule_score_sub_scores:
  assumes "rule_score self r prefs = Inr rule"
  shows "\<exists>sc cu. calculate_scenic_score r = Inr sc \<and> calculate_cultural_score r prefs = Inr cu"
  using assms unfolding rule_score_def Let_def by (auto split: sum.splits)

text \<open>
  C6, amended. \<^verbatim>\<open>_calculate_route_score\<close> raises nothing: it returns 0 when the rule-based
  part raises. Without a learned scorer the result is the rule-based score capped at 5.
  With one, the result is \<open>rule * 0.7 + ml * 0.3\<close> capped at 5, where \<open>rule\<close> is the
  rule-based score as it is (not clipped) and \<open>ml\<close> is the prediction clipped to [0, 5],
  or 3 when the prediction raises.
\<close>

theorem learned_score_blend:
  "(ml_model self = None \<longrightarrow>
      calculate_route_score self r prefs
        = (case rule_score self r prefs of Inl e \<Rightarrow> 0 | Inr rule \<Rightarrow> min rule 5))
   \<and> (\<forall>predict rule. ml_model self = Some predict \<and> rule_score self r prefs = Inr rule \<longrightarrow>
        (\<exists>sc cu. calculate_scenic_score r = Inr sc \<and> calculate_cultural_score r prefs = Inr cu
           \<and> calculate_route_score self r prefs
               = min (rule * 0.7
                      + (case predict [total_distance r, total_duration r,
                                       real_of_int (total_cost r), sc, cu, 3, 1, 1] of
                           Inl e \<Rightarrow> 3
                         | Inr p \<Rightarrow> max 0 (min 5 p)) * 0.3) 5))
   \<and> (\<forall>e. rule_score self r prefs = Inl e \<longrightarrow> calculate_route_score self r prefs = 0)"
proof (intro conjI allI impI)
  assume "ml_model self = None"
  then show "calculate_route_score self r prefs
        = (case rule_score self r prefs of Inl e \<Rightarrow> 0 | Inr rule \<Rightarrow> min rule 5)"
    by (simp add: calculate_route_score_def split: sum.splits)
next
  fix predict rule
  assume a: "ml_model self = Some predict \<and> rule_score self r prefs = Inr rule"
  then have m: "ml_model self = Some predict" and b: "rule_score self r prefs = Inr rule"
    by simp_all
  from rule_score_sub_scores[OF b] obtain sc cu where
    sc: "calculate_scenic_score r = Inr sc" and
    cu: "calculate_cultural_score r prefs = Inr cu"
    by blast
  have "calculate_route_score self r prefs
               = min (rule * 0.7
                      + (case predict [total_distance r, total_duration r,
                                       real_of_int (total_cost r), sc, cu, 3, 1, 1] of
                           Inl e \<Rightarrow> 3
                         | Inr p \<Rightarrow> max 0 (min 5 p)) * 0.3) 5"
    by (simp add: calculate_route_score_def b m get_ml_score_def sc cu split: sum.splits)
  then show "\<exists>sc cu. calculate_scenic_score r = Inr sc \<and> calculate_cultural_score r prefs = Inr cu
           \<and> calculate_route_score self r prefs
               = min (rule * 0.7
                      + (case predict [total_distance r, total_duration r,
                                       real_of_int (total_cost r), sc, cu, 3, 1, 1] of
                           Inl e \<Rightarrow> 3
                         | Inr p \<Rightarrow> max 0 (min 5 p)) * 0.3) 5"
    using sc cu by blast
next
  fix e
  assume "rule_score self r prefs = Inl e"
  then show "calculate_route_score self r prefs = 0"
    by (simp add: calculate_route_score_def)
qed

text \<open>
  C6, as stated, fails: with a learned scorer that raises, the candidate whose rule-based
  score is 1 is returned with the score 1 * 0.7 + 3 * 0.3 = 1.6.
\<close>

theorem raising_scorer_counterexample:
  "adv_recommend_routes (winter_recommender [row_of 1 2] (Some failing_model))
     standard_traveller (from_1_to_2 []) 5
     = [direct_candidate\<lparr>adv_score := 16 / 10\<rparr>]
   \<and> rule_score (winter_recommender [row_of 1 2] (Some failing_model))
        direct_candidate standard_traveller = Inr 1
   \<and> failing_model [500, 10, 0, 0, 0, 3, 1, 1] = Inl PredictError"
proof -
  have g: "get_route_segments (winter_recommender [row_of 1 2] (Some failing_model)) (from_1_to_2 [])
             = [segment_of 1 2]"
    by (simp add: get_route_segments_def db_execute_def winter_fields query_where_def
          from_1_to_2_def example_segments)
       (simp add: row_of_def)
  have c: "generate_route_combinations [segment_of 1 2] (from_1_to_2 [])
             = [direct_candidate]"
    by (simp add: generate_route_combinations_def from_1_to_2_def segment_of_def
          direct_candidate_def)
  have "adv_recommend_routes (winter_recommender [row_of 1 2] (Some failing_model))
     standard_traveller (from_1_to_2 []) 5
     = [direct_candidate\<lparr>adv_score := 16 / 10\<rparr>]"
    by (simp add: adv_recommend_routes_def g c Let_def example_score_failing_model sort_desc_def)
  then show ?thesis
    by (simp add: example_rule_scores failing_model_def)
qed

theorem learned_score_blend_witness:
  "calculate_route_score (winter_recommender [row_of 1 2] (Some constant_model))
     direct_candidate standard_traveller = 19 / 10
   \<and> rule_score (winter_recommender [row_of 1 2] (Some constant_model))
        direct_candidate standard_traveller = Inr 1
   \<and> constant_model [500, 10, 0, 0, 0, 3, 1, 1] = Inr 4"
proof -
  let ?self = "winter_recommender [row_of 1 2] (Some constant_model)"
  have m: "ml_model ?self = Some constant_model" by (simp add: winter_fields)
  have b: "rule_score ?self direct_candidate standard_traveller = Inr 1"
    by (rule example_rule_scores)
  from learned_score_blend[of ?self direct_candidate standard_traveller] m b
  obtain sc cu where
    "calculate_scenic_score direct_candidate = Inr sc"
    "calculate_cultural_score direct_candidate standard_traveller = Inr cu"
    "calculate_route_score ?self direct_candidate standard_traveller
       = min (1 * 0.7
              + (case constant_model [total_distance direct_candidate,
                                      total_duration direct_candidate,
                                      real_of_int (total_cost direct_candidate),
                                      sc, cu, 3, 1, 1] of
                   Inl e \<Rightarrow> 3
                 | Inr p \<Rightarrow> max 0 (min 5 p)) * 0.3) 5"
    by blast
  then have "calculate_route_score ?self direct_candidate standard_traveller = 19 / 10"
    by (simp add: constant_model_def)
  then show ?thesis using b by (simp add: constant_model_def)
qed


end
